theory Spec2Isabelle
  imports Complex_Main "HOL-Library.Sublist"
begin

section \<open>Python strings and the builtins the corpus module calls\<close>

text \<open>
  A Python \<open>str\<close> is a sequence of Unicode code points, and \<open>len\<close> counts code points.
  A code point is modelled as a natural number and a string as a list of them.
\<close>

type_synonym uchar = nat
type_synonym ustring = "uchar list"

text \<open>ASCII literals are written as HOL strings and converted.\<close>

definition ustr :: "string \<Rightarrow> ustring" where
  "ustr cs = map of_char cs"

text \<open>The exceptions the modelled code can raise.\<close>

datatype py_error = ZeroDivisionError | IndexError | ValueError | RegexError

text \<open>
  \<open>str.isspace\<close> on one code point, which is also what \<open>str.strip()\<close>, \<open>str.split()\<close> and
  \<open>\s\<close> of the \<open>re\<close> module use for \<open>str\<close> patterns: the code points of bidirectional type
  WS, B or S and of category Zs.
\<close>

definition py_isspace :: "uchar \<Rightarrow> bool" where
  "py_isspace c \<longleftrightarrow>
     (9 \<le> c \<and> c \<le> 13) \<or> (28 \<le> c \<and> c \<le> 32) \<or> c = 133 \<or> c = 160 \<or> c = 5760 \<or>
     (8192 \<le> c \<and> c \<le> 8202) \<or> c = 8232 \<or> c = 8233 \<or> c = 8239 \<or> c = 8287 \<or> c = 12288"

text \<open>\<open>s.strip()\<close>: leading and trailing whitespace removed.\<close>

definition py_strip :: "ustring \<Rightarrow> ustring" where
  "py_strip s = rev (dropWhile py_isspace (rev (dropWhile py_isspace s)))"

text \<open>
  \<open>s.split()\<close> without a separator: the maximal runs of non-whitespace, in order; \<open>cur\<close> is
  the token being read.
\<close>

fun split_ws_from :: "ustring \<Rightarrow> ustring \<Rightarrow> ustring list" where
  "split_ws_from cur [] = (if cur = [] then [] else [cur])"
| "split_ws_from cur (c # cs) =
     (if py_isspace c
      then (if cur = [] then split_ws_from [] cs else cur # split_ws_from [] cs)
      else split_ws_from (cur @ [c]) cs)"

definition py_split_ws :: "ustring \<Rightarrow> ustring list" where
  "py_split_ws s = split_ws_from [] s"

text \<open>\<open>max(xs)\<close> of a list of integers raises \<open>ValueError\<close> on the empty list.\<close>

definition py_max :: "int list \<Rightarrow> py_error + int" where
  "py_max xs = (case xs of [] \<Rightarrow> Inl ValueError | y # ys \<Rightarrow> Inr (fold max ys y))"

text \<open>\<open>len(s)\<close> as a Python integer.\<close>

definition py_len :: "'a list \<Rightarrow> int" where
  "py_len s = int (length s)"

text \<open>\<open>a / b\<close> on integers: true division, \<open>ZeroDivisionError\<close> when \<open>b\<close> is zero.\<close>

definition py_truediv :: "int \<Rightarrow> int \<Rightarrow> py_error + rat" where
  "py_truediv a b = (if b = 0 then Inl ZeroDivisionError else Inr (of_int a / of_int b))"

text \<open>\<open>xs[i]\<close> for a non-negative literal index: \<open>IndexError\<close> out of range.\<close>

definition py_index :: "'a list \<Rightarrow> nat \<Rightarrow> py_error + 'a" where
  "py_index xs i = (if i < length xs then Inr (xs ! i) else Inl IndexError)"

text \<open>
  \<open>s.find(sub, start, stop)\<close> with non-negative bounds: the lowest index \<open>i \<ge> start\<close> with
  \<open>s[i:i+len(sub)] == sub\<close> inside \<open>s[start:stop]\<close>, or \<open>-1\<close>. \<open>find_at k sub t\<close> searches \<open>t\<close>,
  whose first element has index \<open>k\<close> in \<open>s\<close>.
\<close>

fun find_at :: "nat \<Rightarrow> ustring \<Rightarrow> ustring \<Rightarrow> int" where
  "find_at k sub [] = (if sub = [] then int k else - 1)"
| "find_at k sub (c # cs) = (if prefix sub (c # cs) then int k else find_at (Suc k) sub cs)"

definition py_find :: "ustring \<Rightarrow> ustring \<Rightarrow> nat \<Rightarrow> nat \<Rightarrow> int" where
  "py_find s sub start stop =
     (if start > min stop (length s) then - 1
      else find_at start sub (drop start (take stop s)))"

text \<open>
  \<open>str.lower()\<close> and \<open>str.upper()\<close>. On ASCII code points the mapping is written out; on the
  others it is Unicode's full case mapping, taken as a parameter (the lower-casing of a
  code point may depend on its position in the string, as for capital sigma).
\<close>

definition ascii_lower :: "uchar \<Rightarrow> uchar" where
  "ascii_lower c = (if 65 \<le> c \<and> c \<le> 90 then c + 32 else c)"

definition ascii_upper :: "uchar \<Rightarrow> uchar" where
  "ascii_upper c = (if 97 \<le> c \<and> c \<le> 122 then c - 32 else c)"

definition py_lower :: "(ustring \<Rightarrow> nat \<Rightarrow> ustring) \<Rightarrow> ustring \<Rightarrow> ustring" where
  "py_lower lower_ext s =
     concat (map (\<lambda>i. if s ! i < 128 then [ascii_lower (s ! i)] else lower_ext s i)
               [0..<length s])"

definition py_upper :: "(uchar \<Rightarrow> ustring) \<Rightarrow> ustring \<Rightarrow> ustring" where
  "py_upper upper_ext s = concat (map (\<lambda>c. if c < 128 then [ascii_upper c] else upper_ext c) s)"

text \<open>
  \<open>s.replace(old, new)\<close>: the occurrences of \<open>old\<close> are found from left to right without
  overlap and each is replaced by \<open>new\<close>; an empty \<open>old\<close> matches before every character and
  at the end.
\<close>

function py_replace :: "ustring \<Rightarrow> ustring \<Rightarrow> ustring \<Rightarrow> ustring" where
  "py_replace old new [] = (if old = [] then new else [])"
| "py_replace old new (c # cs) =
     (if old = [] then new @ c # py_replace old new cs
      else if prefix old (c # cs) then new @ py_replace old new (drop (length old) (c # cs))
      else c # py_replace old new cs)"
  by pat_completeness auto
termination
  by (relation "measure (\<lambda>(old, new, s). length s)") auto

text \<open>
  \<open>s.split(sep)\<close> for a separator of one character: the fields between the occurrences of
  \<open>sep\<close>, at least one field; \<open>cur\<close> is the field being read.
\<close>

fun split_char_from :: "uchar \<Rightarrow> ustring \<Rightarrow> ustring \<Rightarrow> ustring list" where
  "split_char_from sep cur [] = [cur]"
| "split_char_from sep cur (c # cs) =
     (if c = sep then cur # split_char_from sep [] cs else split_char_from sep (cur @ [c]) cs)"

definition py_split_char :: "uchar \<Rightarrow> ustring \<Rightarrow> ustring list" where
  "py_split_char sep s = split_char_from sep [] s"

text \<open>
  \<open>re.sub(r"\s{2,}", " ", s)\<close>: every maximal run of two or more whitespace characters becomes
  one space (the quantifier is greedy and the scan goes from left to right).
\<close>

function re_sub_spaces :: "ustring \<Rightarrow> ustring" where
  "re_sub_spaces [] = []"
| "re_sub_spaces (c # cs) =
     (if py_isspace c \<and> cs \<noteq> [] \<and> py_isspace (hd cs)
      then 32 # re_sub_spaces (dropWhile py_isspace cs)
      else c # re_sub_spaces cs)"
  by pat_completeness auto
termination
  by (relation "measure length") (auto simp: less_Suc_eq_le length_dropWhile_le)

section \<open>Collaborators outside the module\<close>

text \<open>
  The helpers imported from \<open>yimt.corpus.utils\<close> and \<open>yimt.api.utils\<close>, and the data of the
  libraries \<open>difflib\<close> and \<open>regex\<close> and of the Unicode database, are parameters of the model:
  total functions about which nothing is assumed. \<open>is_ascii_char\<close> is applied to one
  character at every call site modelled here. \<open>script name\<close> is the set of code points that
  \<open>\p{Script=name}\<close> matches, and \<open>None\<close> when \<open>regex\<close> knows no script of that name.
  A Python number is read as the rational it denotes. \<open>py_mul ratio n\<close> is the value of the
  Python expression \<open>ratio * n\<close> for an integer \<open>n\<close>: the exact product when \<open>ratio\<close> is an
  \<open>int\<close>, the product rounded to the nearest double when \<open>ratio\<close> is a \<open>float\<close>. A comparison
  of an integer with a number is exact, as in Python. The rounding of the quotients that the
  ratio filters compare with their thresholds is not modelled.
\<close>

record deps =
  is_ascii_char :: "uchar \<Rightarrow> bool"
  is_ascii :: "ustring \<Rightarrow> bool"
  has_zh :: "ustring \<Rightarrow> bool"
  detect_lang :: "ustring \<Rightarrow> string"
  hant_2_hans :: "ustring \<Rightarrow> ustring"
  sequence_ratio :: "ustring \<Rightarrow> ustring \<Rightarrow> rat"
  lower_nonascii :: "ustring \<Rightarrow> nat \<Rightarrow> ustring"
  upper_nonascii :: "uchar \<Rightarrow> ustring"
  alphabetic :: "uchar \<Rightarrow> bool"
  regex_space :: "uchar \<Rightarrow> bool"
  script :: "string \<Rightarrow> (uchar \<Rightarrow> bool) option"
  py_mul :: "rat \<Rightarrow> int \<Rightarrow> rat"

section \<open>Filters\<close>

text \<open>
  \<open>filter(src, tgt)\<close> returns the pair, returns \<open>None\<close>, or raises: the result is
  \<open>Inr (Some (src, tgt))\<close>, \<open>Inr None\<close> or \<open>Inl e\<close>.
\<close>

type_synonym pair = "ustring \<times> ustring"
type_synonym filter_result = "py_error + pair option"

text \<open>\<open>if cond: return None\<close> followed by the rest of the method; \<open>cond\<close> may raise.\<close>

definition reject_if :: "py_error + bool \<Rightarrow> filter_result \<Rightarrow> filter_result" where
  "reject_if cond rest = (case cond of Inl e \<Rightarrow> Inl e | Inr b \<Rightarrow> if b then Inr None else rest)"

subsection \<open>SameFilter\<close>

definition SameFilter_filter :: "deps \<Rightarrow> bool \<Rightarrow> ustring \<Rightarrow> ustring \<Rightarrow> filter_result" where
  "SameFilter_filter d lower src tgt =
     (if lower
      then (if py_lower (lower_nonascii d) (py_strip src) = py_lower (lower_nonascii d) (py_strip tgt)
            then Inr None else Inr (Some (src, tgt)))
      else (if py_strip src = py_strip tgt then Inr None else Inr (Some (src, tgt))))"

subsection \<open>HasZhFilter\<close>

definition HasZhFilter_filter :: "deps \<Rightarrow> bool \<Rightarrow> ustring \<Rightarrow> ustring \<Rightarrow> filter_result" where
  "HasZhFilter_filter d filter_src src tgt =
     (if filter_src
      then (if has_zh d src then Inr None else Inr (Some (src, tgt)))
      else (if has_zh d tgt then Inr None else Inr (Some (src, tgt))))"

subsection \<open>OverlapFilter\<close>

definition OverlapFilter_filter :: "deps \<Rightarrow> rat \<Rightarrow> ustring \<Rightarrow> ustring \<Rightarrow> filter_result" where
  "OverlapFilter_filter d ratio src tgt =
     (if sequence_ratio d src tgt > ratio then Inr None else Inr (Some (src, tgt)))"

subsection \<open>EmptyFilter\<close>

definition EmptyFilter_filter :: "ustring \<Rightarrow> ustring \<Rightarrow> filter_result" where
  "EmptyFilter_filter src tgt =
     (if py_len (py_strip src) = 0 \<or> py_len (py_strip tgt) = 0 then Inr None
      else Inr (Some (src, tgt)))"

subsection \<open>AllASCII\<close>

definition AllASCII_filter :: "deps \<Rightarrow> ustring \<Rightarrow> ustring \<Rightarrow> filter_result" where
  "AllASCII_filter d src tgt =
     (let is_src_en = is_ascii d src; is_tgt_en = is_ascii d tgt in
      if is_src_en \<and> is_tgt_en then Inr None else Inr (Some (src, tgt)))"

subsection \<open>ASCIIRatioFilter\<close>

text \<open>\<open>n_ascii\<close>: the counting loop over the characters of \<open>s\<close>.\<close>

definition n_ascii :: "deps \<Rightarrow> ustring \<Rightarrow> int" where
  "n_ascii d s = fold (\<lambda>c n. if is_ascii_char d c then n + 1 else n) s 0"

text \<open>
  The condition \<open>flag and self.n_ascii(s)/len(s) > self._threshold\<close>: the division is
  evaluated only when the flag is set, and nothing checks \<open>len(s)\<close> before it.
\<close>

definition ascii_ratio_exceeds :: "deps \<Rightarrow> rat \<Rightarrow> bool \<Rightarrow> ustring \<Rightarrow> py_error + bool" where
  "ascii_ratio_exceeds d threshold flag s =
     (if flag
      then (case py_truediv (n_ascii d s) (py_len s) of
              Inl e \<Rightarrow> Inl e
            | Inr r \<Rightarrow> Inr (r > threshold))
      else Inr False)"

definition ASCIIRatioFilter_filter ::
  "deps \<Rightarrow> rat \<Rightarrow> bool \<Rightarrow> bool \<Rightarrow> ustring \<Rightarrow> ustring \<Rightarrow> filter_result" where
  "ASCIIRatioFilter_filter d threshold filter_src filter_tgt src tgt =
     reject_if (ascii_ratio_exceeds d threshold filter_src src)
       (reject_if (ascii_ratio_exceeds d threshold filter_tgt tgt) (Inr (Some (src, tgt))))"

text \<open>The constructor's defaults: \<open>threshold=0.67, filter_src=False, filter_tgt=True\<close>.\<close>

definition ASCIIRatioFilter_default :: "deps \<Rightarrow> ustring \<Rightarrow> ustring \<Rightarrow> filter_result" where
  "ASCIIRatioFilter_default d = ASCIIRatioFilter_filter d (67 / 100) False True"

subsection \<open>LangFilter\<close>

definition LangFilter_filter ::
  "deps \<Rightarrow> string \<Rightarrow> string \<Rightarrow> ustring \<Rightarrow> ustring \<Rightarrow> filter_result" where
  "LangFilter_filter d src_lang tgt_lang src tgt =
     (if detect_lang d src \<noteq> src_lang \<or> detect_lang d tgt \<noteq> tgt_lang then Inr None
      else Inr (Some (src, tgt)))"

subsection \<open>LenFilter\<close>

text \<open>
  Length functions are constructor arguments (\<open>len\<close> by default); bounds are pairs
  \<open>(min, max)\<close> whose components may be \<open>None\<close>. \<open>lt_bound bound n\<close> is
  \<open>bound is not None and n < bound\<close>, \<open>gt_bound bound n\<close> is \<open>bound is not None and n > bound\<close>.
\<close>

type_synonym len_fn = "ustring \<Rightarrow> int"
type_synonym bounds = "int option \<times> int option"

definition lt_bound :: "int option \<Rightarrow> int \<Rightarrow> bool" where
  "lt_bound bound n = (case bound of None \<Rightarrow> False | Some m \<Rightarrow> n < m)"

definition gt_bound :: "int option \<Rightarrow> int \<Rightarrow> bool" where
  "gt_bound bound n = (case bound of None \<Rightarrow> False | Some m \<Rightarrow> n > m)"

definition LenFilter_filter ::
  "bounds \<Rightarrow> bounds \<Rightarrow> len_fn \<Rightarrow> len_fn \<Rightarrow> ustring \<Rightarrow> ustring \<Rightarrow> filter_result" where
  "LenFilter_filter src_lens tgt_lens src_len_fn tgt_len_fn src tgt =
     (let src_len = src_len_fn src; tgt_len = tgt_len_fn tgt in
      if lt_bound (fst src_lens) src_len then Inr None
      else if gt_bound (snd src_lens) src_len then Inr None
      else if lt_bound (fst tgt_lens) tgt_len then Inr None
      else if gt_bound (snd tgt_lens) tgt_len then Inr None
      else Inr (Some (src, tgt)))"

subsection \<open>LenDiffFilter\<close>

text \<open>The products \<open>self.ratio * len_tgt\<close> and \<open>self.ratio * len_src\<close> are Python's.\<close>

definition LenDiffFilter_filter ::
  "deps \<Rightarrow> rat \<Rightarrow> len_fn \<Rightarrow> len_fn \<Rightarrow> ustring \<Rightarrow> ustring \<Rightarrow> filter_result" where
  "LenDiffFilter_filter d ratio src_len_fn tgt_len_fn src tgt =
     (let len_src = src_len_fn src; len_tgt = tgt_len_fn tgt in
      if of_int len_src \<le> py_mul d ratio len_tgt \<and> of_int len_tgt \<le> py_mul d ratio len_src
      then Inr (Some (src, tgt))
      else Inr None)"

subsection \<open>LengthFilter\<close>

definition LengthFilter_filter ::
  "deps \<Rightarrow> len_fn \<Rightarrow> len_fn \<Rightarrow> bounds \<Rightarrow> bounds \<Rightarrow> rat \<Rightarrow> ustring \<Rightarrow> ustring
     \<Rightarrow> filter_result" where
  "LengthFilter_filter d src_len_fn tgt_len_fn src_lens tgt_lens ratio src tgt =
     (let src_len = src_len_fn src; tgt_len = tgt_len_fn tgt in
      if lt_bound (fst src_lens) src_len then Inr None
      else if gt_bound (snd src_lens) src_len then Inr None
      else if lt_bound (fst tgt_lens) tgt_len then Inr None
      else if gt_bound (snd tgt_lens) tgt_len then Inr None
      else if of_int src_len \<le> py_mul d ratio tgt_len \<and> of_int tgt_len \<le> py_mul d ratio src_len
      then Inr (Some (src, tgt))
      else Inr None)"

text \<open>
  What rounding to the nearest double guarantees of \<open>ratio * n\<close> for \<open>0 < ratio \<le> 1\<close> and a
  length \<open>n\<close> below \<open>2 ^ 53\<close>: zero times a number is zero, one times \<open>n\<close> is \<open>n\<close>, and for a
  ratio below one (at most \<open>1 - 2 ^ -53\<close>, then) the rounded product stays below \<open>n\<close>. The
  exact product of an \<open>int\<close> ratio satisfies it as well.
\<close>

definition product_rounds_down :: "deps \<Rightarrow> rat \<Rightarrow> nat \<Rightarrow> bool" where
  "product_rounds_down d ratio n \<longleftrightarrow>
     py_mul d ratio 0 = 0 \<and>
     (ratio = 1 \<longrightarrow> py_mul d ratio (int n) = of_nat n) \<and>
     (ratio < 1 \<and> 0 < n \<longrightarrow> py_mul d ratio (int n) < of_nat n)"

subsection \<open>LongWordFilter\<close>

text \<open>
  \<open>max_long\<close> is the pair \<open>(src_max_len, tgt_max_len)\<close>; either bound may be \<open>None\<close>.
  \<open>exceeds_max bound s\<close> is the condition
  \<open>bound is not None and max([len(w) for w in s.split()]) > bound\<close>: the list comprehension
  and \<open>max\<close> are evaluated only when the bound is not \<open>None\<close>.
\<close>

definition exceeds_max :: "int option \<Rightarrow> ustring \<Rightarrow> py_error + bool" where
  "exceeds_max bound s =
     (case bound of
        None \<Rightarrow> Inr False
      | Some m \<Rightarrow> (case py_max (map py_len (py_split_ws s)) of
                    Inl e \<Rightarrow> Inl e
                  | Inr w \<Rightarrow> Inr (w > m)))"

definition LongWordFilter_filter ::
  "int option \<times> int option \<Rightarrow> ustring \<Rightarrow> ustring \<Rightarrow> filter_result" where
  "LongWordFilter_filter max_long src tgt =
     (if fst max_long = None \<and> snd max_long = None then Inr (Some (src, tgt))
      else reject_if (exceeds_max (fst max_long) src)
             (reject_if (exceeds_max (snd max_long) tgt) (Inr (Some (src, tgt)))))"

subsection \<open>AlphabetRatioFilter\<close>

text \<open>
  \<open>re_whitespace.sub('', s)\<close> deletes the characters \<open>\s\<close> matches and
  \<open>re_not_alphas.sub('', s)\<close> those \<open>\p{Alphabetic=No}\<close> matches. In \<open>score\<close> the alphabetic
  characters are counted in \<open>s\<close> itself, and the division has no guard.
\<close>

definition AlphabetRatioFilter_score :: "deps \<Rightarrow> bool \<Rightarrow> ustring \<Rightarrow> py_error + rat" where
  "AlphabetRatioFilter_score d exclude_whitespace s =
     (let segment = (if exclude_whitespace then filter (\<lambda>c. \<not> regex_space d c) s else s);
          alphas = filter (alphabetic d) s
      in py_truediv (py_len alphas) (py_len segment))"

text \<open>\<open>score(src) >= threshold and score(tgt) >= threshold\<close>, the right operand evaluated only
  when the left one holds.\<close>

definition AlphabetRatioFilter_filter ::
  "deps \<Rightarrow> rat \<Rightarrow> bool \<Rightarrow> ustring \<Rightarrow> ustring \<Rightarrow> filter_result" where
  "AlphabetRatioFilter_filter d threshold exclude_whitespace src tgt =
     (case AlphabetRatioFilter_score d exclude_whitespace src of
        Inl e \<Rightarrow> Inl e
      | Inr rs \<Rightarrow>
          if rs \<ge> threshold
          then (case AlphabetRatioFilter_score d exclude_whitespace tgt of
                  Inl e \<Rightarrow> Inl e
                | Inr rt \<Rightarrow> if rt \<ge> threshold then Inr (Some (src, tgt)) else Inr None)
          else Inr None)"

subsection \<open>CharacterRatioFilter\<close>

text \<open>The class attribute \<open>lang2script\<close>.\<close>

definition lang2script :: "string \<rightharpoonup> string" where
  "lang2script = map_of [(''zh'', ''Han''), (''en'', ''Latin''), (''ko'', ''Hangul''),
     (''ar'', ''Arabic''), (''th'', ''Thai'')]"

text \<open>
  The object the constructor builds. A compiled pattern \<open>\p{^Script=name}\<close> is the predicate
  of the code points it matches; compiling raises when \<open>regex\<close> knows no script \<open>name\<close>.
\<close>

record CharacterRatioFilter_self =
  scripts :: "string list"
  thresholds :: "rat list"
  re_not_script :: "(uchar \<Rightarrow> bool) list"

definition compile_not_script :: "deps \<Rightarrow> string \<Rightarrow> py_error + (uchar \<Rightarrow> bool)" where
  "compile_not_script d name =
     (case script d name of None \<Rightarrow> Inl RegexError | Some in_script \<Rightarrow> Inr (\<lambda>c. \<not> in_script c))"

fun compile_all :: "deps \<Rightarrow> string list \<Rightarrow> py_error + (uchar \<Rightarrow> bool) list" where
  "compile_all d [] = Inr []"
| "compile_all d (name # names) =
     (case compile_not_script d name of
        Inl e \<Rightarrow> Inl e
      | Inr p \<Rightarrow> (case compile_all d names of Inl e \<Rightarrow> Inl e | Inr ps \<Rightarrow> Inr (p # ps)))"

definition CharacterRatioFilter_init ::
  "deps \<Rightarrow> string list \<Rightarrow> rat list option \<Rightarrow> py_error + CharacterRatioFilter_self" where
  "CharacterRatioFilter_init d scripts_arg thresholds_arg =
     (case compile_all d scripts_arg of
        Inl e \<Rightarrow> Inl e
      | Inr ps \<Rightarrow>
          Inr \<lparr> scripts = scripts_arg,
                thresholds = (case thresholds_arg of
                                None \<Rightarrow> replicate (length scripts_arg) 1
                              | Some ts \<Rightarrow> ts),
                re_not_script = ps \<rparr>)"

definition CharacterRatioFilter_score ::
  "deps \<Rightarrow> CharacterRatioFilter_self \<Rightarrow> ustring \<Rightarrow> nat \<Rightarrow> py_error + rat" where
  "CharacterRatioFilter_score d self sent idx =
     (let alphas = filter (alphabetic d) sent in
      if alphas \<noteq> []
      then (case py_index (re_not_script self) idx of
              Inl e \<Rightarrow> Inl e
            | Inr not_script \<Rightarrow>
                py_truediv (py_len (filter (\<lambda>c. \<not> not_script c) alphas)) (py_len alphas))
      else Inr 0)"

text \<open>The condition \<open>self.score(sent, idx) < self.thresholds[idx]\<close>, left operand first.\<close>

definition score_below ::
  "deps \<Rightarrow> CharacterRatioFilter_self \<Rightarrow> ustring \<Rightarrow> nat \<Rightarrow> py_error + bool" where
  "score_below d self sent idx =
     (case CharacterRatioFilter_score d self sent idx of
        Inl e \<Rightarrow> Inl e
      | Inr r \<Rightarrow> (case py_index (thresholds self) idx of
                    Inl e \<Rightarrow> Inl e
                  | Inr th \<Rightarrow> Inr (r < th)))"

definition CharacterRatioFilter_filter ::
  "deps \<Rightarrow> CharacterRatioFilter_self \<Rightarrow> ustring \<Rightarrow> ustring \<Rightarrow> filter_result" where
  "CharacterRatioFilter_filter d self src tgt =
     reject_if (score_below d self src 0)
       (reject_if (score_below d self tgt 1) (Inr (Some (src, tgt))))"

subsection \<open>AugumentForZhFilter\<close>

text \<open>
  \<open>_get_en_words\<close>: the matches of \<open>[a-zA-Z0-9]+\<close> found by \<open>re.finditer\<close>, the maximal runs of
  ASCII letters and digits; \<open>cur\<close> is the run being read.
\<close>

definition en_word_char :: "uchar \<Rightarrow> bool" where
  "en_word_char c \<longleftrightarrow> (97 \<le> c \<and> c \<le> 122) \<or> (65 \<le> c \<and> c \<le> 90) \<or> (48 \<le> c \<and> c \<le> 57)"

fun en_words_from :: "ustring \<Rightarrow> ustring \<Rightarrow> ustring list" where
  "en_words_from cur [] = (if cur = [] then [] else [cur])"
| "en_words_from cur (c # cs) =
     (if en_word_char c then en_words_from (cur @ [c]) cs
      else (if cur = [] then en_words_from [] cs else cur # en_words_from [] cs))"

definition get_en_words :: "ustring \<Rightarrow> ustring list" where
  "get_en_words s = en_words_from [] s"

text \<open>\<open>_exist\<close>: every word occurs in \<open>s\<close>.\<close>

definition exist :: "ustring list \<Rightarrow> ustring \<Rightarrow> bool" where
  "exist words s = list_all (\<lambda>w. py_find s w 0 (length s) \<noteq> - 1) words"

definition AugumentForZhFilter_filter :: "ustring \<Rightarrow> ustring \<Rightarrow> filter_result" where
  "AugumentForZhFilter_filter src tgt =
     (let src_en_words = get_en_words src in
      if \<not> exist src_en_words tgt then Inr None
      else let tgt_en_words = get_en_words tgt in
           if \<not> exist tgt_en_words src then Inr None
           else Inr (Some (src, tgt)))"

subsection \<open>The family of concrete filters\<close>

text \<open>
  One constructor per subclass of \<open>Filter\<close>, holding the configuration its constructor
  stores; \<open>apply_filter\<close> is the call \<open>f.filter(src, tgt)\<close>.
\<close>

datatype corpus_filter =
    SameFilter bool
  | HasZhFilter bool
  | OverlapFilter rat
  | EmptyFilter
  | AllASCII
  | ASCIIRatioFilter rat bool bool
  | LangFilter string string
  | LenFilter bounds bounds len_fn len_fn
  | LenDiffFilter rat len_fn len_fn
  | LengthFilter len_fn len_fn bounds bounds rat
  | LongWordFilter "int option \<times> int option"
  | AlphabetRatioFilter rat bool
  | CharacterRatioFilter CharacterRatioFilter_self
  | AugumentForZhFilter

fun apply_filter :: "deps \<Rightarrow> corpus_filter \<Rightarrow> ustring \<Rightarrow> ustring \<Rightarrow> filter_result" where
  "apply_filter d (SameFilter lower) src tgt = SameFilter_filter d lower src tgt"
| "apply_filter d (HasZhFilter filter_src) src tgt = HasZhFilter_filter d filter_src src tgt"
| "apply_filter d (OverlapFilter ratio) src tgt = OverlapFilter_filter d ratio src tgt"
| "apply_filter d EmptyFilter src tgt = EmptyFilter_filter src tgt"
| "apply_filter d AllASCII src tgt = AllASCII_filter d src tgt"
| "apply_filter d (ASCIIRatioFilter th fs ft) src tgt = ASCIIRatioFilter_filter d th fs ft src tgt"
| "apply_filter d (LangFilter src_lang tgt_lang) src tgt =
     LangFilter_filter d src_lang tgt_lang src tgt"
| "apply_filter d (LenFilter sb tb sf tf) src tgt = LenFilter_filter sb tb sf tf src tgt"
| "apply_filter d (LenDiffFilter ratio sf tf) src tgt = LenDiffFilter_filter d ratio sf tf src tgt"
| "apply_filter d (LengthFilter sf tf sb tb ratio) src tgt =
     LengthFilter_filter d sf tf sb tb ratio src tgt"
| "apply_filter d (LongWordFilter max_long) src tgt = LongWordFilter_filter max_long src tgt"
| "apply_filter d (AlphabetRatioFilter th ew) src tgt = AlphabetRatioFilter_filter d th ew src tgt"
| "apply_filter d (CharacterRatioFilter self) src tgt = CharacterRatioFilter_filter d self src tgt"
| "apply_filter d AugumentForZhFilter src tgt = AugumentForZhFilter_filter src tgt"

section \<open>Normalizers\<close>

subsection \<open>SpaceNormalizer\<close>

text \<open>
  \<open>skip_space d s i\<close> is the test of the loop body at index \<open>i\<close>: the character is a space and
  its left or its right neighbour in \<open>s\<close> is not ASCII. The loop appends the characters at
  the other indices, in order.
\<close>

definition skip_space :: "deps \<Rightarrow> ustring \<Rightarrow> nat \<Rightarrow> bool" where
  "skip_space d s i \<longleftrightarrow>
     s ! i = 32 \<and> ((i > 0 \<and> \<not> is_ascii_char d (s ! (i - 1))) \<or>
                  (i < length s - 1 \<and> \<not> is_ascii_char d (s ! (i + 1))))"

definition SpaceNormalizer_normalize :: "deps \<Rightarrow> ustring \<Rightarrow> ustring" where
  "SpaceNormalizer_normalize d s0 =
     (let s = py_strip s0;
          s = py_replace [12288] [32] s;
          s = py_replace [160] [32] s;
          s = re_sub_spaces s;
          s = py_strip s
      in map (\<lambda>i. s ! i) (filter (\<lambda>i. \<not> skip_space d s i) [0..<length s]))"

subsection \<open>NoPrintNormalizer\<close>

text \<open>One-character strings compare by code point.\<close>

definition NoPrintNormalizer_normalize :: "ustring \<Rightarrow> ustring" where
  "NoPrintNormalizer_normalize s =
     filter (\<lambda>c. \<not> ((0 \<le> c \<and> c \<le> 8) \<or> (10 \<le> c \<and> c \<le> 31) \<or> c = 127)) s"

subsection \<open>Paired punctuation\<close>

text \<open>
  \<open>punct_pairs\<close>: curly double quotes, the straight double quote (twice), curly single
  quotes, full-width parentheses, title marks, ASCII parentheses.
\<close>

definition punct_pairs :: "(ustring \<times> ustring) list" where
  "punct_pairs = [([8220], [8221]), ([34], [34]), ([8216], [8217]), ([65288], [65289]),
     ([12298], [12299]), ([40], [41])]"

text \<open>The four \<open>replace\<close> calls at the head of \<open>normalize_pair_punct\<close>.\<close>

definition replace_repeats :: "ustring \<Rightarrow> ustring \<Rightarrow> ustring \<Rightarrow> ustring" where
  "replace_repeats s0 left_punct right_punct =
     (let s = py_replace (left_punct @ left_punct) [] s0;
          s = py_replace (left_punct @ left_punct @ left_punct) left_punct s;
          s = py_replace (right_punct @ right_punct) [] s;
          s = py_replace (right_punct @ right_punct @ right_punct) right_punct s
      in s)"

text \<open>The block on the first \<open>left_punct\<close>: \<open>s[:idx] + s[idx + 1:]\<close> drops one character.\<close>

definition remove_left :: "ustring \<Rightarrow> ustring \<Rightarrow> ustring \<Rightarrow> ustring" where
  "remove_left s left_punct right_punct =
     (let idx = py_find s left_punct 0 (length s) in
      if idx \<ge> 0
      then (let has_pair = py_find s right_punct (nat (idx + 1)) (length s) in
            if has_pair = - 1 then take (nat idx) s @ drop (nat (idx + 1)) s else s)
      else s)"

text \<open>The block on the first \<open>right_punct\<close>.\<close>

definition remove_right :: "ustring \<Rightarrow> ustring \<Rightarrow> ustring \<Rightarrow> ustring" where
  "remove_right s left_punct right_punct =
     (let idx = py_find s right_punct 0 (length s) in
      if idx \<ge> 0
      then (let has_pair = py_find s left_punct 0 (nat idx) in
            if has_pair = - 1 then take (nat idx) s @ drop (nat (idx + 1)) s else s)
      else s)"

definition normalize_pair_punct :: "ustring \<Rightarrow> ustring \<Rightarrow> ustring \<Rightarrow> ustring" where
  "normalize_pair_punct s left_punct right_punct =
     remove_right (remove_left (replace_repeats s left_punct right_punct) left_punct right_punct)
       left_punct right_punct"

subsection \<open>PairPunctNormalizer\<close>

definition normalize_pair :: "ustring \<Rightarrow> ustring \<Rightarrow> ustring \<times> ustring" where
  "normalize_pair src tgt =
     fold (\<lambda>p (src, tgt). (normalize_pair_punct src (fst p) (snd p),
                            normalize_pair_punct tgt (fst p) (snd p)))
       punct_pairs (src, tgt)"

text \<open>\<open>pair[0]\<close> and \<open>pair[1]\<close> are read without a test of \<open>len(pair)\<close>.\<close>

definition PairPunctNormalizer_normalize :: "ustring \<Rightarrow> py_error + ustring" where
  "PairPunctNormalizer_normalize s =
     (let pair = py_split_char 9 s in
      case py_index pair 0 of
        Inl e \<Rightarrow> Inl e
      | Inr src \<Rightarrow>
          (case py_index pair 1 of
             Inl e \<Rightarrow> Inl e
           | Inr tgt \<Rightarrow> (case normalize_pair src tgt of (src', tgt') \<Rightarrow> Inr (src' @ [9] @ tgt'))))"

subsection \<open>Hant2Hans\<close>

text \<open>The \<open>print(s)\<close> on the malformed-input path writes to standard output and is left out.\<close>

definition Hant2Hans_normalize :: "deps \<Rightarrow> bool \<Rightarrow> bool \<Rightarrow> ustring \<Rightarrow> ustring" where
  "Hant2Hans_normalize d norm_src norm_tgt s =
     (if \<not> norm_src \<and> \<not> norm_tgt then s
      else let pair = py_split_char 9 s in
           if length pair \<noteq> 2 then s
           else let src = pair ! 0; tgt = pair ! 1;
                    src = (if norm_src then hant_2_hans d src else src);
                    tgt = (if norm_tgt then hant_2_hans d tgt else tgt)
                in src @ [9] @ tgt)"

section \<open>Descriptions used in the proofs\<close>

subsection \<open>Characters whose case mapping is a round trip\<close>

text \<open>
  A non-ASCII character \<open>c\<close> whose upper case is one non-ASCII character \<open>u\<close>, whitespace exactly
  when \<open>c\<close> is, such that \<open>u\<close> and \<open>c\<close> have the same lower case wherever they stand. Every
  uncased character is one (\<open>u = c\<close>), and so is an ordinary cased letter such as U+00E9;
  U+00DF is not, its upper case being two ASCII letters.
\<close>

definition case_round_trip :: "deps \<Rightarrow> uchar \<Rightarrow> bool" where
  "case_round_trip d c \<longleftrightarrow>
     (\<exists>u. upper_nonascii d c = [u] \<and> 128 \<le> u \<and> py_isspace u = py_isspace c \<and>
          (\<forall>s i t j. i < length s \<and> s ! i = c \<and> j < length t \<and> t ! j = u
             \<longrightarrow> lower_nonascii d s i = lower_nonascii d t j))"

subsection \<open>The loop of SpaceNormalizer as a recursion\<close>

text \<open>
  The loop body looks at \<open>s[i - 1]\<close> and \<open>s[i + 1]\<close>; read from left to right, \<open>prev\<close> is the
  character before the current one (\<open>None\<close> at index 0) and the head of the rest is the
  character after it.
\<close>

fun keep_spaces :: "deps \<Rightarrow> uchar option \<Rightarrow> ustring \<Rightarrow> ustring" where
  "keep_spaces d prev [] = []"
| "keep_spaces d prev (c # cs) =
     (if c = 32 \<and> ((case prev of None \<Rightarrow> False | Some p \<Rightarrow> \<not> is_ascii_char d p) \<or>
                   (cs \<noteq> [] \<and> \<not> is_ascii_char d (hd cs)))
      then keep_spaces d (Some c) cs
      else c # keep_spaces d (Some c) cs)"

text \<open>No two whitespace characters next to each other.\<close>

fun no_adjacent_spaces :: "ustring \<Rightarrow> bool" where
  "no_adjacent_spaces (x # y # zs) = (\<not> (py_isspace x \<and> py_isspace y) \<and> no_adjacent_spaces (y # zs))"
| "no_adjacent_spaces xs = True"

subsection \<open>One scan of the pair-punctuation normalization, on lists\<close>

text \<open>
  \<open>drop_pairs c\<close> deletes two adjacent \<open>c\<close> at a time, from left to right; \<open>doubled c s\<close> says
  that two adjacent \<open>c\<close> occur in \<open>s\<close>.
\<close>

fun drop_pairs :: "uchar \<Rightarrow> ustring \<Rightarrow> ustring" where
  "drop_pairs c (x # y # zs) = (if x = c \<and> y = c then drop_pairs c zs else x # drop_pairs c (y # zs))"
| "drop_pairs c xs = xs"

fun doubled :: "uchar \<Rightarrow> ustring \<Rightarrow> bool" where
  "doubled c (x # y # zs) = ((x = c \<and> y = c) \<or> doubled c (y # zs))"
| "doubled c xs = False"

text \<open>
  \<open>drop_first_open l r s\<close> deletes the first \<open>l\<close> of \<open>s\<close> when no \<open>r\<close> occurs after it;
  \<open>drop_first_close l r s\<close> deletes the first \<open>r\<close> of \<open>s\<close> when no \<open>l\<close> occurs before it.
\<close>

definition drop_first_open :: "uchar \<Rightarrow> uchar \<Rightarrow> ustring \<Rightarrow> ustring" where
  "drop_first_open l r s =
     (case dropWhile (\<lambda>x. x \<noteq> l) s of
        [] \<Rightarrow> s
      | _ # rest \<Rightarrow> if r \<in> set rest then s else takeWhile (\<lambda>x. x \<noteq> l) s @ rest)"

definition drop_first_close :: "uchar \<Rightarrow> uchar \<Rightarrow> ustring \<Rightarrow> ustring" where
  "drop_first_close l r s =
     (case dropWhile (\<lambda>x. x \<noteq> r) s of
        [] \<Rightarrow> s
      | _ # rest \<Rightarrow> if l \<in> set (takeWhile (\<lambda>x. x \<noteq> r) s) then s
                    else takeWhile (\<lambda>x. x \<noteq> r) s @ rest)"

text \<open>
  In the words of the specification: the index of the first opening bracket \<open>l\<close> that has no
  closing bracket \<open>r\<close> after it, counted from \<open>k\<close>.
\<close>

fun claimed_unmatched_open :: "nat \<Rightarrow> uchar \<Rightarrow> uchar \<Rightarrow> ustring \<Rightarrow> nat option" where
  "claimed_unmatched_open k l r [] = None"
| "claimed_unmatched_open k l r (c # cs) =
     (if c = l \<and> r \<notin> set cs then Some k else claimed_unmatched_open (Suc k) l r cs)"

section \<open>Sample collaborators\<close>

text \<open>
  A concrete \<open>deps\<close> value for evaluating the model at concrete inputs. Its Unicode data
  agrees with the Unicode database on the ASCII range, on U+00DF (whose upper case is the two
  letters \<open>SS\<close>) and on the CJK Unified Ideographs block U+4E00 to U+9FFF (alphabetic, script
  Han); the examples below use no other code point. \<open>Han\<close> and \<open>Latin\<close> are the only script
  names it lists; language codes such as \<open>zh\<close> are not script names. Its product is the exact
  one, which is Python's for an \<open>int\<close> ratio and whenever the product is a double, as in the
  examples below.
\<close>

definition ascii_letter :: "uchar \<Rightarrow> bool" where
  "ascii_letter c \<longleftrightarrow> (65 \<le> c \<and> c \<le> 90) \<or> (97 \<le> c \<and> c \<le> 122)"

definition cjk_unified :: "uchar \<Rightarrow> bool" where
  "cjk_unified c \<longleftrightarrow> 19968 \<le> c \<and> c \<le> 40959"

definition sample_deps :: deps where
  "sample_deps =
     \<lparr> is_ascii_char = (\<lambda>c. c < 128),
       is_ascii = list_all (\<lambda>c. c < 128),
       has_zh = list_ex cjk_unified,
       detect_lang = (\<lambda>s. if list_ex cjk_unified s then ''zh'' else ''en''),
       hant_2_hans = (\<lambda>s. s),
       sequence_ratio = (\<lambda>a b. if a = b then 1 else 0),
       lower_nonascii = (\<lambda>s i. [s ! i]),
       upper_nonascii = (\<lambda>c. if c = 223 then [83, 83] else [c]),
       alphabetic = (\<lambda>c. ascii_letter c \<or> cjk_unified c),
       regex_space = py_isspace,
       script = (\<lambda>name. if name = ''Han'' then Some cjk_unified
                         else if name = ''Latin'' then Some ascii_letter
                         else None),
       py_mul = (\<lambda>ratio n. ratio * of_int n) \<rparr>"

section \<open>Properties\<close>

subsection \<open>Builtins\<close>

lemma dropWhile_all_iff: "(\<forall>x \<in> set (dropWhile P s). P x) \<longleftrightarrow> (\<forall>x \<in> set s. P x)"
proof
  assume a: "\<forall>x \<in> set (dropWhile P s). P x"
  have "dropWhile P s = []"
  proof (rule ccontr)
    assume n: "dropWhile P s \<noteq> []"
    then have "\<not> P (hd (dropWhile P s))" by (rule hd_dropWhile)
    moreover have "hd (dropWhile P s) \<in> set (dropWhile P s)" using n by simp
    ultimately show False using a by blast
  qed
  then show "\<forall>x \<in> set s. P x" by (simp add: dropWhile_eq_Nil_conv)
next
  assume "\<forall>x \<in> set s. P x"
  then show "\<forall>x \<in> set (dropWhile P s). P x" by (meson set_dropWhileD)
qed

lemma py_strip_empty_iff: "py_strip s = [] \<longleftrightarrow> (\<forall>c \<in> set s. py_isspace c)"
  by (simp add: py_strip_def dropWhile_eq_Nil_conv dropWhile_all_iff)

lemma set_py_strip: "set (py_strip s) \<subseteq> set s"
  by (auto simp: py_strip_def dest!: set_dropWhileD)

lemma split_ws_from_empty_iff:
  "split_ws_from cur s = [] \<longleftrightarrow> cur = [] \<and> (\<forall>c \<in> set s. py_isspace c)"
  by (induction cur s rule: split_ws_from.induct) auto

lemma py_split_ws_empty_iff: "py_split_ws s = [] \<longleftrightarrow> (\<forall>c \<in> set s. py_isspace c)"
  by (simp add: py_split_ws_def split_ws_from_empty_iff)

lemma py_max_error_iff: "py_max xs = Inl e \<longleftrightarrow> xs = [] \<and> e = ValueError"
  by (auto simp: py_max_def split: list.splits)

lemma py_max_nonempty: "xs \<noteq> [] \<Longrightarrow> py_max xs = Inr (Max (set xs))"
  by (cases xs) (simp_all add: py_max_def Max.set_eq_fold del: set_simps)

subsection \<open>EmptyFilter\<close>

text \<open>
  C4. \<open>EmptyFilter.filter(src, tgt)\<close> returns \<open>None\<close> exactly when \<open>src.strip()\<close> or
  \<open>tgt.strip()\<close> is empty, and returns the pair \<open>(src, tgt)\<close> otherwise; it never raises.
\<close>

theorem EmptyFilter_none_iff:
  "(EmptyFilter_filter src tgt = Inr None \<longleftrightarrow> py_strip src = [] \<or> py_strip tgt = []) \<and>
   (EmptyFilter_filter src tgt \<noteq> Inr None \<longleftrightarrow> EmptyFilter_filter src tgt = Inr (Some (src, tgt)))"
  by (simp add: EmptyFilter_filter_def py_len_def)

subsection \<open>LongWordFilter\<close>

lemma exceeds_max_None: "exceeds_max None s = Inr False"
  by (simp add: exceeds_max_def)

lemma exceeds_max_blank:
  "(\<forall>c \<in> set s. py_isspace c) \<Longrightarrow> exceeds_max (Some m) s = Inl ValueError"
  by (simp add: exceeds_max_def py_split_ws_empty_iff[symmetric] py_max_def)

lemma exceeds_max_tokens:
  assumes "\<not> (\<forall>c \<in> set s. py_isspace c)"
  shows "exceeds_max (Some m) s = Inr (\<exists>w \<in> set (py_split_ws s). py_len w > m)"
proof -
  have ne: "map py_len (py_split_ws s) \<noteq> []"
    using assms by (simp add: py_split_ws_empty_iff)
  have "Max (set (map py_len (py_split_ws s))) > m \<longleftrightarrow> (\<exists>w \<in> set (py_split_ws s). py_len w > m)"
    using ne by (subst Max_gr_iff) auto
  then show ?thesis
    by (simp add: exceeds_max_def py_max_nonempty[OF ne] del: set_map)
qed

text \<open>
  C10, as the claim states it for the target side, fails: with both maxima set and an empty
  target, a source token longer than the source maximum makes the call return \<open>None\<close>
  before the target is looked at.
\<close>

theorem LongWordFilter_target_counterexample:
  "LongWordFilter_filter (Some 2, Some 40) (ustr ''abc'') [] = Inr None"
  by (simp add: LongWordFilter_filter_def reject_if_def exceeds_max_def py_split_ws_def ustr_def
      py_isspace_def py_max_def py_len_def)

text \<open>
  C10 (amended). \<open>LongWordFilter.filter\<close> raises \<open>ValueError\<close> (\<open>max\<close> of an empty list)
  when the source maximum is set and the source is empty or all whitespace; it raises the same
  error when the target maximum is set, the target is empty or all whitespace, and the source
  check has not already rejected or failed. When every side with a configured maximum has a
  whitespace-delimited token, the call returns \<open>None\<close> or the pair.
\<close>

theorem LongWordFilter_partial:
  "(fst ml \<noteq> None \<and> (\<forall>c \<in> set src. py_isspace c)
      \<longrightarrow> LongWordFilter_filter ml src tgt = Inl ValueError) \<and>
   (snd ml \<noteq> None \<and> (\<forall>c \<in> set tgt. py_isspace c) \<and> exceeds_max (fst ml) src = Inr False
      \<longrightarrow> LongWordFilter_filter ml src tgt = Inl ValueError) \<and>
   ((fst ml \<noteq> None \<longrightarrow> \<not> (\<forall>c \<in> set src. py_isspace c)) \<and>
    (snd ml \<noteq> None \<longrightarrow> \<not> (\<forall>c \<in> set tgt. py_isspace c))
      \<longrightarrow> LongWordFilter_filter ml src tgt \<in> {Inr None, Inr (Some (src, tgt))})"
proof (intro conjI impI)
  assume "fst ml \<noteq> None \<and> (\<forall>c \<in> set src. py_isspace c)"
  then show "LongWordFilter_filter ml src tgt = Inl ValueError"
    by (auto simp: LongWordFilter_filter_def reject_if_def exceeds_max_blank)
next
  assume "snd ml \<noteq> None \<and> (\<forall>c \<in> set tgt. py_isspace c) \<and> exceeds_max (fst ml) src = Inr False"
  then show "LongWordFilter_filter ml src tgt = Inl ValueError"
    by (auto simp: LongWordFilter_filter_def reject_if_def exceeds_max_blank)
next
  assume a: "(fst ml \<noteq> None \<longrightarrow> \<not> (\<forall>c \<in> set src. py_isspace c)) \<and>
    (snd ml \<noteq> None \<longrightarrow> \<not> (\<forall>c \<in> set tgt. py_isspace c))"
  obtain bs where bs: "exceeds_max (fst ml) src = Inr bs"
    using a by (cases "fst ml") (auto simp: exceeds_max_None exceeds_max_tokens)
  obtain bt where bt: "exceeds_max (snd ml) tgt = Inr bt"
    using a by (cases "snd ml") (auto simp: exceeds_max_None exceeds_max_tokens)
  show "LongWordFilter_filter ml src tgt \<in> {Inr None, Inr (Some (src, tgt))}"
    by (simp add: LongWordFilter_filter_def reject_if_def bs bt)
qed

theorem LongWordFilter_partial_witness:
  "LongWordFilter_filter (Some 40, Some 40) (ustr ''  '') (ustr ''ab'') = Inl ValueError \<and>
   LongWordFilter_filter (Some 40, Some 40) (ustr ''ab'') [] = Inl ValueError \<and>
   LongWordFilter_filter (Some 40, Some 40) (ustr ''ab'') (ustr ''c d'')
     \<in> {Inr None, Inr (Some (ustr ''ab'', ustr ''c d''))}"
proof -
  have blank: "\<forall>c \<in> set (ustr ''  ''). py_isspace c"
    by (simp add: ustr_def py_isspace_def)
  have src_ok: "exceeds_max (Some 40) (ustr ''ab'') = Inr False"
    by (simp add: exceeds_max_def py_split_ws_def ustr_def py_isspace_def py_max_def py_len_def)
  have tokens: "\<not> (\<forall>c \<in> set (ustr ''ab''). py_isspace c)"
    "\<not> (\<forall>c \<in> set (ustr ''c d''). py_isspace c)"
    by (simp_all add: ustr_def py_isspace_def)
  show ?thesis
    using LongWordFilter_partial [of "(Some 40, Some 40)" "ustr ''  ''" "ustr ''ab''"]
      LongWordFilter_partial [of "(Some 40, Some 40)" "ustr ''ab''" "[]"]
      LongWordFilter_partial [of "(Some 40, Some 40)" "ustr ''ab''" "ustr ''c d''"]
      blank src_ok tokens
    by simp
qed

subsection \<open>Frame: a kept pair is the input pair\<close>

lemma reject_if_kept: "reject_if c rest = Inr (Some p) \<Longrightarrow> rest = Inr (Some p)"
  by (auto simp: reject_if_def split: sum.splits if_splits)

text \<open>
  C9. Whenever the \<open>filter\<close> method of a concrete filter returns normally and does not
  reject, the value returned is the input pair \<open>(src, tgt)\<close> itself: no filter rewrites a
  sentence.
\<close>

theorem filters_keep_pair_unchanged:
  "apply_filter d f src tgt = Inr (Some p) \<Longrightarrow> p = (src, tgt)"
proof (cases f)
  case (ASCIIRatioFilter th fs ft)
  assume "apply_filter d f src tgt = Inr (Some p)"
  then show ?thesis using ASCIIRatioFilter
    by (auto simp: ASCIIRatioFilter_filter_def dest!: reject_if_kept)
next
  case (LongWordFilter ml)
  assume "apply_filter d f src tgt = Inr (Some p)"
  then show ?thesis using LongWordFilter
    by (auto simp: LongWordFilter_filter_def split: if_splits dest!: reject_if_kept)
next
  case (CharacterRatioFilter self)
  assume "apply_filter d f src tgt = Inr (Some p)"
  then show ?thesis using CharacterRatioFilter
    by (auto simp: CharacterRatioFilter_filter_def dest!: reject_if_kept)
next
  case (AlphabetRatioFilter th ew)
  assume "apply_filter d f src tgt = Inr (Some p)"
  then show ?thesis using AlphabetRatioFilter
    by (auto simp: AlphabetRatioFilter_filter_def split: sum.splits if_splits)
qed (auto simp: SameFilter_filter_def HasZhFilter_filter_def OverlapFilter_filter_def
      EmptyFilter_filter_def AllASCII_filter_def LangFilter_filter_def LenFilter_filter_def
      LenDiffFilter_filter_def LengthFilter_filter_def AugumentForZhFilter_filter_def Let_def
      split: if_splits)

theorem filters_keep_pair_unchanged_witness:
  "\<exists>p. apply_filter sample_deps (LenFilter (Some 1, Some 10) (None, None) py_len py_len)
          (ustr ''hello'') (ustr ''world'') = Inr (Some p) \<and>
       p = (ustr ''hello'', ustr ''world'')"
proof -
  have "\<exists>p. apply_filter sample_deps (LenFilter (Some 1, Some 10) (None, None) py_len py_len)
          (ustr ''hello'') (ustr ''world'') = Inr (Some p)"
    by (simp add: LenFilter_filter_def lt_bound_def gt_bound_def py_len_def ustr_def)
  then obtain p where h: "apply_filter sample_deps
      (LenFilter (Some 1, Some 10) (None, None) py_len py_len)
      (ustr ''hello'') (ustr ''world'') = Inr (Some p)" ..
  from filters_keep_pair_unchanged [OF h] h show ?thesis by blast
qed

subsection \<open>Division by a zero length\<close>

text \<open>
  The sibling \<open>CharacterRatioFilter.score\<close> tests the divisor first and returns \<open>0.0\<close>
  when there is no alphabetic character.
\<close>

lemma CharacterRatioFilter_score_guarded:
  "filter (alphabetic d) sent = [] \<Longrightarrow> CharacterRatioFilter_score d self sent idx = Inr 0"
  by (simp add: CharacterRatioFilter_score_def)

lemma AlphabetRatioFilter_score_zero_segment:
  "(\<forall>c \<in> set s. regex_space d c) \<Longrightarrow> AlphabetRatioFilter_score d True s = Inl ZeroDivisionError"
  by (simp add: AlphabetRatioFilter_score_def py_truediv_def py_len_def filter_empty_conv)

text \<open>
  C1 does not hold of the code. \<open>ASCIIRatioFilter.filter\<close> and \<open>AlphabetRatioFilter.filter\<close>
  divide by \<open>len\<close> of the side without testing it: with the default configuration an empty
  target makes \<open>ASCIIRatioFilter.filter\<close> raise \<open>ZeroDivisionError\<close>, so does an empty source
  when \<open>filter_src\<close> is set, and an empty source makes \<open>AlphabetRatioFilter.filter\<close> raise it
  under every configuration.
\<close>

theorem ratio_filters_divide_by_zero:
  "ASCIIRatioFilter_default d src [] = Inl ZeroDivisionError \<and>
   ASCIIRatioFilter_filter d threshold True filter_tgt [] tgt = Inl ZeroDivisionError \<and>
   AlphabetRatioFilter_filter d threshold exclude_whitespace [] tgt = Inl ZeroDivisionError"
  by (simp add: ASCIIRatioFilter_default_def ASCIIRatioFilter_filter_def reject_if_def
      ascii_ratio_exceeds_def n_ascii_def py_truediv_def py_len_def
      AlphabetRatioFilter_filter_def AlphabetRatioFilter_score_def)

subsection \<open>Length ratio\<close>

text \<open>
  With a ratio strictly below one, the two exact inequalities hold of two empty sentences only.
\<close>

lemma symmetric_ratio_strict:
  fixes ratio :: rat and a b :: nat
  assumes "0 < ratio" "ratio < 1"
  shows "of_nat a \<le> ratio * of_nat b \<and> of_nat b \<le> ratio * of_nat a \<longleftrightarrow> a = 0 \<and> b = 0"
proof
  assume h: "of_nat a \<le> ratio * of_nat b \<and> of_nat b \<le> ratio * of_nat a"
  let ?a = "of_nat a :: rat" and ?b = "of_nat b :: rat"
  have "ratio * ?b \<le> ratio * (ratio * ?a)" using h assms(1) by (simp add: mult_left_mono)
  then have le: "?a \<le> ratio * ratio * ?a" using h by (simp add: mult.assoc)
  have "ratio * ratio < 1 * 1" using assms by (intro mult_strict_mono) simp_all
  then have pos: "0 < 1 - ratio * ratio" by simp
  have "?a * (1 - ratio * ratio) \<le> 0" using le by (simp add: algebra_simps)
  then have "?a \<le> 0" using pos by (simp add: mult_le_0_iff)
  then have a0: "a = 0" by simp
  with h show "a = 0 \<and> b = 0" by simp
next
  assume "a = 0 \<and> b = 0"
  then show "of_nat a \<le> ratio * of_nat b \<and> of_nat b \<le> ratio * of_nat a" by simp
qed

text \<open>
  For a ratio in \<open>(0, 1]\<close> the test on Python's rounded products and the test on the exact
  products give the same verdict.
\<close>

lemma rounded_test_exact:
  assumes r: "0 < ratio" "ratio \<le> 1"
    and pa: "product_rounds_down d ratio a" and pb: "product_rounds_down d ratio b"
  shows "of_nat a \<le> py_mul d ratio (int b) \<and> of_nat b \<le> py_mul d ratio (int a) \<longleftrightarrow>
         of_nat a \<le> ratio * of_nat b \<and> of_nat b \<le> ratio * of_nat a"
proof (cases "ratio = 1")
  case True
  with pa pb show ?thesis by (simp add: product_rounds_down_def)
next
  case False
  with r have lt: "ratio < 1" by simp
  have z: "py_mul d ratio 0 = 0" using pa by (simp add: product_rounds_down_def)
  have da: "0 < a \<Longrightarrow> py_mul d ratio (int a) < of_nat a"
    using pa lt by (simp add: product_rounds_down_def)
  have db: "0 < b \<Longrightarrow> py_mul d ratio (int b) < of_nat b"
    using pb lt by (simp add: product_rounds_down_def)
  have "of_nat a \<le> py_mul d ratio (int b) \<and> of_nat b \<le> py_mul d ratio (int a) \<longleftrightarrow> a = 0 \<and> b = 0"
  proof
    assume h: "of_nat a \<le> py_mul d ratio (int b) \<and> of_nat b \<le> py_mul d ratio (int a)"
    show "a = 0 \<and> b = 0"
    proof (rule ccontr)
      assume n: "\<not> (a = 0 \<and> b = 0)"
      show False
      proof (cases "0 < b")
        case True
        with db h have ab: "(of_nat a :: rat) < of_nat b" by simp
        show False
        proof (cases "0 < a")
          case True
          with da h have "(of_nat b :: rat) < of_nat a" by simp
          with ab show False by simp
        next
          case False
          with h z True show False by simp
        qed
      next
        case False
        with n have "0 < a" "b = 0" by simp_all
        with h z show False by simp
      qed
    qed
  next
    assume "a = 0 \<and> b = 0"
    with z show "of_nat a \<le> py_mul d ratio (int b) \<and> of_nat b \<le> py_mul d ratio (int a)" by simp
  qed
  with symmetric_ratio_strict[OF r(1) lt, of a b] show ?thesis by simp
qed

lemma sample_product: "product_rounds_down sample_deps ratio n"
  by (auto simp: product_rounds_down_def sample_deps_def mult_less_cancel_right2)

text \<open>
  C3. For a ratio in \<open>(0, 1]\<close> and the default length functions, \<open>LenDiffFilter(ratio)\<close> keeps
  a pair exactly when \<open>len(src) <= ratio * len(tgt)\<close> and \<open>len(tgt) <= ratio * len(src)\<close>, and
  returns \<open>None\<close> otherwise; \<open>LengthFilter\<close> keeps a pair exactly when its four bound checks
  pass and the same two inequalities hold, for every ratio. The products are the ones Python
  computes; for a ratio in \<open>(0, 1]\<close> whose products round as those of doubles do, both
  filters give the verdict of the two inequalities on the exact products.
\<close>

theorem LenDiffFilter_keeps_iff:
  "(0 < ratio \<and> ratio \<le> 1 \<longrightarrow>
     (LenDiffFilter_filter d ratio py_len py_len src tgt = Inr (Some (src, tgt)) \<longleftrightarrow>
        of_nat (length src) \<le> py_mul d ratio (int (length tgt)) \<and>
        of_nat (length tgt) \<le> py_mul d ratio (int (length src))) \<and>
     (LenDiffFilter_filter d ratio py_len py_len src tgt \<noteq> Inr (Some (src, tgt)) \<longleftrightarrow>
        LenDiffFilter_filter d ratio py_len py_len src tgt = Inr None)) \<and>
   (LengthFilter_filter d py_len py_len src_lens tgt_lens r src tgt = Inr (Some (src, tgt)) \<longleftrightarrow>
      \<not> lt_bound (fst src_lens) (py_len src) \<and> \<not> gt_bound (snd src_lens) (py_len src) \<and>
      \<not> lt_bound (fst tgt_lens) (py_len tgt) \<and> \<not> gt_bound (snd tgt_lens) (py_len tgt) \<and>
      of_nat (length src) \<le> py_mul d r (int (length tgt)) \<and>
      of_nat (length tgt) \<le> py_mul d r (int (length src))) \<and>
   (0 < ratio \<and> ratio \<le> 1 \<and>
    product_rounds_down d ratio (length src) \<and> product_rounds_down d ratio (length tgt) \<longrightarrow>
     (LenDiffFilter_filter d ratio py_len py_len src tgt = Inr (Some (src, tgt)) \<longleftrightarrow>
        of_nat (length src) \<le> ratio * of_nat (length tgt) \<and>
        of_nat (length tgt) \<le> ratio * of_nat (length src)) \<and>
     (LengthFilter_filter d py_len py_len src_lens tgt_lens ratio src tgt = Inr (Some (src, tgt)) \<longleftrightarrow>
        \<not> lt_bound (fst src_lens) (py_len src) \<and> \<not> gt_bound (snd src_lens) (py_len src) \<and>
        \<not> lt_bound (fst tgt_lens) (py_len tgt) \<and> \<not> gt_bound (snd tgt_lens) (py_len tgt) \<and>
        of_nat (length src) \<le> ratio * of_nat (length tgt) \<and>
        of_nat (length tgt) \<le> ratio * of_nat (length src)))"
proof (intro conjI impI)
  show "LenDiffFilter_filter d ratio py_len py_len src tgt = Inr (Some (src, tgt)) \<longleftrightarrow>
        of_nat (length src) \<le> py_mul d ratio (int (length tgt)) \<and>
        of_nat (length tgt) \<le> py_mul d ratio (int (length src))"
    by (simp add: LenDiffFilter_filter_def py_len_def Let_def)
  show "LenDiffFilter_filter d ratio py_len py_len src tgt \<noteq> Inr (Some (src, tgt)) \<longleftrightarrow>
        LenDiffFilter_filter d ratio py_len py_len src tgt = Inr None"
    by (simp add: LenDiffFilter_filter_def py_len_def Let_def)
  show "LengthFilter_filter d py_len py_len src_lens tgt_lens r src tgt = Inr (Some (src, tgt)) \<longleftrightarrow>
      \<not> lt_bound (fst src_lens) (py_len src) \<and> \<not> gt_bound (snd src_lens) (py_len src) \<and>
      \<not> lt_bound (fst tgt_lens) (py_len tgt) \<and> \<not> gt_bound (snd tgt_lens) (py_len tgt) \<and>
      of_nat (length src) \<le> py_mul d r (int (length tgt)) \<and>
      of_nat (length tgt) \<le> py_mul d r (int (length src))"
    by (simp add: LengthFilter_filter_def py_len_def Let_def)
next
  assume h: "0 < ratio \<and> ratio \<le> 1 \<and>
    product_rounds_down d ratio (length src) \<and> product_rounds_down d ratio (length tgt)"
  then have e: "of_nat (length src) \<le> py_mul d ratio (int (length tgt)) \<and>
      of_nat (length tgt) \<le> py_mul d ratio (int (length src)) \<longleftrightarrow>
      of_nat (length src) \<le> ratio * of_nat (length tgt) \<and>
      of_nat (length tgt) \<le> ratio * of_nat (length src)"
    by (intro rounded_test_exact) simp_all
  show "LenDiffFilter_filter d ratio py_len py_len src tgt = Inr (Some (src, tgt)) \<longleftrightarrow>
        of_nat (length src) \<le> ratio * of_nat (length tgt) \<and>
        of_nat (length tgt) \<le> ratio * of_nat (length src)"
    using e by (simp add: LenDiffFilter_filter_def py_len_def Let_def)
  show "LengthFilter_filter d py_len py_len src_lens tgt_lens ratio src tgt = Inr (Some (src, tgt)) \<longleftrightarrow>
        \<not> lt_bound (fst src_lens) (py_len src) \<and> \<not> gt_bound (snd src_lens) (py_len src) \<and>
        \<not> lt_bound (fst tgt_lens) (py_len tgt) \<and> \<not> gt_bound (snd tgt_lens) (py_len tgt) \<and>
        of_nat (length src) \<le> ratio * of_nat (length tgt) \<and>
        of_nat (length tgt) \<le> ratio * of_nat (length src)"
    using e by (simp add: LengthFilter_filter_def py_len_def Let_def)
qed

theorem LenDiffFilter_keeps_iff_witness:
  "LenDiffFilter_filter sample_deps 1 py_len py_len (ustr ''ab'') (ustr ''cd'')
     = Inr (Some (ustr ''ab'', ustr ''cd'')) \<and>
   LenDiffFilter_filter sample_deps (1 / 2) py_len py_len (ustr ''ab'') (ustr ''abcdefgh'')
     = Inr None \<and>
   LengthFilter_filter sample_deps py_len py_len (None, None) (None, None) 1
       (ustr ''ab'') (ustr ''cd'')
     = Inr (Some (ustr ''ab'', ustr ''cd''))"
proof -
  let ?ab = "ustr ''ab''" and ?cd = "ustr ''cd''" and ?long = "ustr ''abcdefgh''"
  have p1: "0 < (1::rat) \<and> (1::rat) \<le> 1 \<and>
      product_rounds_down sample_deps 1 (length ?ab) \<and>
      product_rounds_down sample_deps 1 (length ?cd)"
    by (simp add: sample_product)
  have p2: "0 < (1 / 2 :: rat) \<and> (1 / 2 :: rat) \<le> 1 \<and>
      product_rounds_down sample_deps (1 / 2) (length ?ab) \<and>
      product_rounds_down sample_deps (1 / 2) (length ?long)"
    by (simp add: sample_product)
  note t1 = LenDiffFilter_keeps_iff [where d = sample_deps and ratio = 1 and src = ?ab
      and tgt = ?cd and src_lens = "(None, None)" and tgt_lens = "(None, None)" and r = 1]
  note t2 = LenDiffFilter_keeps_iff [where d = sample_deps and ratio = "1 / 2" and src = ?ab
      and tgt = ?long and src_lens = "(None, None)" and tgt_lens = "(None, None)" and r = 1]
  have q2: "0 < (1 / 2 :: rat) \<and> (1 / 2 :: rat) \<le> 1" by simp
  note x1 = t1 [THEN conjunct2, THEN conjunct2, THEN mp, OF p1]
  note x2 = t2 [THEN conjunct2, THEN conjunct2, THEN mp, OF p2]
  note a = x1 [THEN conjunct1] and b = x1 [THEN conjunct2] and c = x2 [THEN conjunct1]
  note e = t2 [THEN conjunct1, THEN mp, OF q2, THEN conjunct2]
  have 1: "LenDiffFilter_filter sample_deps 1 py_len py_len ?ab ?cd = Inr (Some (?ab, ?cd))"
    unfolding a by (simp add: ustr_def)
  have 3: "LengthFilter_filter sample_deps py_len py_len (None, None) (None, None) 1 ?ab ?cd
        = Inr (Some (?ab, ?cd))"
    unfolding b by (simp add: ustr_def lt_bound_def gt_bound_def)
  have "LenDiffFilter_filter sample_deps (1 / 2) py_len py_len ?ab ?long
        \<noteq> Inr (Some (?ab, ?long))"
    unfolding c by (simp add: ustr_def)
  then have 2: "LenDiffFilter_filter sample_deps (1 / 2) py_len py_len ?ab ?long = Inr None"
    using e by blast
  from 1 2 3 show ?thesis by blast
qed

subsection \<open>CharacterRatioFilter on the example pairs\<close>

text \<open>
  The constructor compiles \<open>\p{^Script=...}\<close> from its arguments as they are; \<open>lang2script\<close>
  is not consulted. A name that is no script makes it raise.
\<close>

lemma CharacterRatioFilter_init_unknown_script:
  "script d name = None \<Longrightarrow> CharacterRatioFilter_init d (name # names) ths = Inl RegexError"
  by (simp add: CharacterRatioFilter_init_def compile_not_script_def)

text \<open>
  C7, as the claim states it, fails: given the language codes \<open>zh\<close> and \<open>en\<close> themselves, the
  constructor raises, and no filter exists to keep or reject a pair.
\<close>

theorem CharacterRatioFilter_langcodes_counterexample:
  "CharacterRatioFilter_init sample_deps [''zh'', ''en''] (Some [1, 1]) = Inl RegexError"
  by (simp add: CharacterRatioFilter_init_def compile_not_script_def sample_deps_def)

text \<open>
  C7 (amended). \<open>lang2script\<close> maps \<open>zh\<close> and \<open>en\<close> to \<open>Han\<close> and \<open>Latin\<close>. Constructed with these
  script names and thresholds \<open>[1, 1]\<close>, the filter keeps the pair of U+4F60 U+597D U+4E16
  U+754C and \<open>hello world\<close>, and rejects the pair of U+4F60 U+597D followed by \<open>world\<close> and
  \<open>hello\<close>, provided the Unicode data classifies the four ideographs as alphabetic Han, the
  letters of \<open>helloworld\<close> as alphabetic Latin and not Han, and the space as not alphabetic.
\<close>

theorem CharacterRatioFilter_scripts_example:
  assumes "script d ''Han'' = Some han" "script d ''Latin'' = Some latin"
    and "\<forall>c \<in> set [20320, 22909, 19990, 30028]. alphabetic d c \<and> han c"
    and "\<forall>c \<in> set (ustr ''helloworld''). alphabetic d c \<and> latin c \<and> \<not> han c"
    and "\<not> alphabetic d 32"
  shows "those (map lang2script [''zh'', ''en'']) = Some [''Han'', ''Latin''] \<and>
    (\<exists>self. CharacterRatioFilter_init d [''Han'', ''Latin''] (Some [1, 1]) = Inr self \<and>
       CharacterRatioFilter_filter d self [20320, 22909, 19990, 30028] (ustr ''hello world'')
         = Inr (Some ([20320, 22909, 19990, 30028], ustr ''hello world'')) \<and>
       CharacterRatioFilter_filter d self ([20320, 22909] @ ustr ''world'') (ustr ''hello'')
         = Inr None)"
  using assms
  by (simp add: lang2script_def CharacterRatioFilter_init_def compile_not_script_def
      CharacterRatioFilter_filter_def score_below_def CharacterRatioFilter_score_def
      reject_if_def py_index_def py_truediv_def py_len_def ustr_def)

theorem CharacterRatioFilter_scripts_example_witness:
  "\<exists>self. CharacterRatioFilter_init sample_deps [''Han'', ''Latin''] (Some [1, 1]) = Inr self \<and>
     CharacterRatioFilter_filter sample_deps self [20320, 22909, 19990, 30028]
         (ustr ''hello world'')
       = Inr (Some ([20320, 22909, 19990, 30028], ustr ''hello world'')) \<and>
     CharacterRatioFilter_filter sample_deps self ([20320, 22909] @ ustr ''world'') (ustr ''hello'')
       = Inr None"
proof -
  have a: "script sample_deps ''Han'' = Some cjk_unified"
    "script sample_deps ''Latin'' = Some ascii_letter"
    by (simp_all add: sample_deps_def)
  have b: "\<forall>c \<in> set [20320, 22909, 19990, 30028]. alphabetic sample_deps c \<and> cjk_unified c"
    by (simp add: sample_deps_def cjk_unified_def)
  have c: "\<forall>c \<in> set (ustr ''helloworld'').
      alphabetic sample_deps c \<and> ascii_letter c \<and> \<not> cjk_unified c"
    by (simp add: sample_deps_def cjk_unified_def ascii_letter_def ustr_def)
  have d: "\<not> alphabetic sample_deps 32"
    by (simp add: sample_deps_def cjk_unified_def ascii_letter_def)
  show ?thesis
    using CharacterRatioFilter_scripts_example [OF a b c d] by simp
qed

subsection \<open>SameFilter on a sentence and its upper case\<close>

text \<open>
  C8, as the claim states it, fails: the upper case of U+00DF is \<open>SS\<close>, whose lower case
  \<open>ss\<close> is not U+00DF, so the pair is kept.
\<close>

theorem SameFilter_upper_counterexample:
  "SameFilter_filter sample_deps True [223] (py_upper (upper_nonascii sample_deps) [223])
     = Inr (Some ([223], [83, 83]))"
  by (simp add: SameFilter_filter_def py_upper_def py_lower_def py_strip_def py_isspace_def
      sample_deps_def ascii_lower_def)

lemma concat_singletons: "concat (map (\<lambda>i. [f i]) xs) = map f xs"
  by (induction xs) simp_all

lemma isspace_ascii_upper: "py_isspace (ascii_upper c) = py_isspace c"
  by (auto simp: py_isspace_def ascii_upper_def)

lemma ascii_lower_upper: "ascii_lower (ascii_upper c) = ascii_lower c"
  by (auto simp: ascii_lower_def ascii_upper_def)

lemma ascii_upper_lt: "c < 128 \<Longrightarrow> ascii_upper c < 128"
  by (auto simp: ascii_upper_def)

lemma dropWhile_map_on:
  "(\<forall>c \<in> set xs. P (f c) = P c) \<Longrightarrow> dropWhile P (map f xs) = map f (dropWhile P xs)"
  by (induction xs) auto

lemma py_strip_map_on:
  assumes "\<forall>c \<in> set s. py_isspace (f c) = py_isspace c"
  shows "py_strip (map f s) = map f (py_strip s)"
proof -
  let ?u = "dropWhile py_isspace s"
  have 1: "dropWhile py_isspace (map f s) = map f ?u"
    using assms by (rule dropWhile_map_on)
  have "\<forall>c \<in> set (rev ?u). py_isspace (f c) = py_isspace c"
    using assms by (auto dest: set_dropWhileD)
  then have 2: "dropWhile py_isspace (map f (rev ?u)) = map f (dropWhile py_isspace (rev ?u))"
    by (rule dropWhile_map_on)
  show ?thesis
    by (simp only: py_strip_def 1 2 rev_map)
qed

text \<open>
  C8 (amended). For every \<open>src\<close> whose non-ASCII characters all have a case mapping that is a
  round trip, which includes every \<open>src\<close> whose non-ASCII characters are uncased and every ASCII
  \<open>src\<close>, \<open>SameFilter(lower=True).filter(src, src.upper())\<close> returns \<open>None\<close>.
\<close>

theorem SameFilter_upper_round_trip:
  assumes "\<forall>c \<in> set src. 128 \<le> c \<longrightarrow> case_round_trip d c"
  shows "SameFilter_filter d True src (py_upper (upper_nonascii d) src) = Inr None"
proof -
  define g where "g c = (if c < 128 then ascii_upper c else hd (upper_nonascii d c))" for c
  have rt: "upper_nonascii d c = [g c] \<and> 128 \<le> g c \<and> py_isspace (g c) = py_isspace c \<and>
      (\<forall>s i t j. i < length s \<and> s ! i = c \<and> j < length t \<and> t ! j = g c
         \<longrightarrow> lower_nonascii d s i = lower_nonascii d t j)"
    if "c \<in> set src" "128 \<le> c" for c
  proof -
    from that assms have "case_round_trip d c" by blast
    then obtain u where u: "upper_nonascii d c = [u]" "128 \<le> u" "py_isspace u = py_isspace c"
      "\<forall>s i t j. i < length s \<and> s ! i = c \<and> j < length t \<and> t ! j = u
         \<longrightarrow> lower_nonascii d s i = lower_nonascii d t j"
      unfolding case_round_trip_def by blast
    have "g c = u" using that(2) u(1) by (simp add: g_def)
    with u show ?thesis by simp
  qed
  have sp: "py_isspace (g c) = py_isspace c" if "c \<in> set src" for c
    using that rt[of c] by (cases "c < 128") (simp_all add: g_def isspace_ascii_upper)
  have "map (\<lambda>c. if c < 128 then [ascii_upper c] else upper_nonascii d c) src
      = map (\<lambda>c. [g c]) src"
    using rt by (intro map_cong) (auto simp: g_def)
  then have up: "py_upper (upper_nonascii d) src = map g src"
    unfolding py_upper_def by (simp only: concat_singletons)
  let ?t = "py_strip src"
  have st: "py_strip (map g src) = map g ?t"
    using sp by (intro py_strip_map_on) simp
  have sub: "c \<in> set src" if "c \<in> set ?t" for c
    using that set_py_strip by blast
  have m: "map (\<lambda>i. if map g ?t ! i < 128 then [ascii_lower (map g ?t ! i)]
                    else lower_nonascii d (map g ?t) i) [0..<length (map g ?t)]
      = map (\<lambda>i. if ?t ! i < 128 then [ascii_lower (?t ! i)] else lower_nonascii d ?t i)
          [0..<length ?t]"
  proof (rule map_cong)
    show "[0..<length (map g ?t)] = [0..<length ?t]" by simp
  next
    fix i assume "i \<in> set [0..<length ?t]"
    then have i: "i < length ?t" by simp
    then have mem: "?t ! i \<in> set src" using sub by simp
    have gi: "map g ?t ! i = g (?t ! i)" using i by simp
    show "(if map g ?t ! i < 128 then [ascii_lower (map g ?t ! i)]
            else lower_nonascii d (map g ?t) i)
        = (if ?t ! i < 128 then [ascii_lower (?t ! i)] else lower_nonascii d ?t i)"
    proof (cases "?t ! i < 128")
      case True
      then have "g (?t ! i) = ascii_upper (?t ! i)" by (simp add: g_def)
      with True show ?thesis
        by (simp add: gi ascii_lower_upper ascii_upper_lt)
    next
      case False
      then have ge: "128 \<le> ?t ! i" by simp
      note r = rt[OF mem ge]
      have "lower_nonascii d ?t i = lower_nonascii d (map g ?t) i"
        using r i gi by auto
      with False r show ?thesis by (simp add: gi)
    qed
  qed
  have "py_lower (lower_nonascii d) (map g ?t) = py_lower (lower_nonascii d) ?t"
    unfolding py_lower_def by (rule arg_cong[where f = concat]) (rule m)
  then show ?thesis
    by (simp add: SameFilter_filter_def up st)
qed

theorem SameFilter_upper_round_trip_witness:
  "SameFilter_filter sample_deps True ([20320, 22909, 32] @ ustr ''Hello'')
     (py_upper (upper_nonascii sample_deps) ([20320, 22909, 32] @ ustr ''Hello'')) = Inr None"
proof -
  have u: "case_round_trip sample_deps c" if "128 \<le> c" "c \<noteq> 223" for c
    using that by (simp add: case_round_trip_def sample_deps_def)
  have "\<forall>c \<in> set ([20320, 22909, 32] @ ustr ''Hello''). 128 \<le> c \<longrightarrow> case_round_trip sample_deps c"
    by (simp add: ustr_def u)
  then show ?thesis by (rule SameFilter_upper_round_trip)
qed

subsection \<open>Idempotence of SpaceNormalizer and NoPrintNormalizer\<close>

lemma py_replace_char: "py_replace [a] [b] s = map (\<lambda>c. if c = a then b else c) s"
  by (induction s) auto

lemma loop_from:
  "k \<le> length s \<Longrightarrow>
   map (\<lambda>i. s ! i) (filter (\<lambda>i. \<not> skip_space d s i) [k..<length s]) =
   keep_spaces d (if k = 0 then None else Some (s ! (k - 1))) (drop k s)"
proof (induction "length s - k" arbitrary: k)
  case 0
  then show ?case by simp
next
  case (Suc n)
  then have lt: "k < length s" by simp
  have IH: "map (\<lambda>i. s ! i) (filter (\<lambda>i. \<not> skip_space d s i) [Suc k..<length s]) =
     keep_spaces d (Some (s ! k)) (drop (Suc k) s)"
    using Suc(1)[of "Suc k"] Suc(2) lt by simp
  have dr: "drop k s = s ! k # drop (Suc k) s"
    using lt by (simp add: Cons_nth_drop_Suc)
  have up: "[k..<length s] = k # [Suc k..<length s]"
    using lt by (simp add: upt_conv_Cons)
  have sk: "skip_space d s k \<longleftrightarrow>
      s ! k = 32 \<and> ((case (if k = 0 then None else Some (s ! (k - 1))) of None \<Rightarrow> False
                       | Some p \<Rightarrow> \<not> is_ascii_char d p) \<or>
                    (drop (Suc k) s \<noteq> [] \<and> \<not> is_ascii_char d (hd (drop (Suc k) s))))"
    using lt by (auto simp: skip_space_def hd_drop_conv_nth)
  show ?case
    unfolding up dr using IH sk by simp
qed

lemma loop_keep_spaces:
  "map (\<lambda>i. s ! i) (filter (\<lambda>i. \<not> skip_space d s i) [0..<length s]) = keep_spaces d None s"
  using loop_from[of 0 s d] by simp


lemma nas_Cons:
  "no_adjacent_spaces (x # xs) =
     ((xs = [] \<or> \<not> (py_isspace x \<and> py_isspace (hd xs))) \<and> no_adjacent_spaces xs)"
  by (cases xs) auto

lemma nas_append:
  "no_adjacent_spaces (xs @ ys) \<Longrightarrow> no_adjacent_spaces xs \<and> no_adjacent_spaces ys"
proof (induction xs)
  case Nil
  then show ?case by simp
next
  case (Cons x xs)
  then show ?case by (cases xs) (auto simp: nas_Cons)
qed

lemma re_sub_spaces_head:
  "\<not> py_isspace y \<Longrightarrow> re_sub_spaces (y # ys) = y # re_sub_spaces ys"
  by simp

lemma nas_re_sub_spaces: "no_adjacent_spaces (re_sub_spaces s)"
proof (induction s rule: re_sub_spaces.induct)
  case 1
  then show ?case by simp
next
  case (2 c cs)
  show ?case
  proof (cases "py_isspace c \<and> cs \<noteq> [] \<and> py_isspace (hd cs)")
    case True
    define r where "r = dropWhile py_isspace cs"
    have ih: "no_adjacent_spaces (re_sub_spaces r)" using 2(1) True by (simp add: r_def)
    have hd_r: "r \<noteq> [] \<Longrightarrow> \<not> py_isspace (hd r)"
      unfolding r_def by (rule hd_dropWhile)
    have "no_adjacent_spaces (32 # re_sub_spaces r)"
    proof (cases r)
      case Nil
      then show ?thesis by simp
    next
      case (Cons y ys)
      then have "\<not> py_isspace y" using hd_r by simp
      then show ?thesis using ih Cons by (simp add: nas_Cons)
    qed
    moreover have "re_sub_spaces (c # cs) = 32 # re_sub_spaces r"
      using True by (simp add: r_def)
    ultimately show ?thesis by simp
  next
    case False
    have ih: "no_adjacent_spaces (re_sub_spaces cs)" using 2(2) False by simp
    have "no_adjacent_spaces (c # re_sub_spaces cs)"
    proof (cases cs)
      case Nil
      then show ?thesis by simp
    next
      case (Cons y ys)
      show ?thesis
      proof (cases "py_isspace c")
        case True
        with False Cons have "\<not> py_isspace y" by simp
        then show ?thesis using ih Cons by (simp add: nas_Cons)
      next
        case False
        then show ?thesis using ih by (simp add: nas_Cons)
      qed
    qed
    moreover have "re_sub_spaces (c # cs) = c # re_sub_spaces cs"
      using False by auto
    ultimately show ?thesis by simp
  qed
qed

lemma re_sub_spaces_id: "no_adjacent_spaces t \<Longrightarrow> re_sub_spaces t = t"
  by (induction t) (auto simp: nas_Cons)

lemma set_re_sub_spaces: "set (re_sub_spaces s) \<subseteq> insert 32 (set s)"
proof (induction s rule: re_sub_spaces.induct)
  case 1
  then show ?case by simp
next
  case (2 c cs)
  have "set (dropWhile py_isspace cs) \<subseteq> set cs" by (auto dest: set_dropWhileD)
  with 2 show ?case by (auto split: if_splits)
qed

lemma py_strip_prefix:
  "dropWhile py_isspace s =
     py_strip s @ rev (takeWhile py_isspace (rev (dropWhile py_isspace s)))"
proof -
  let ?u = "dropWhile py_isspace s"
  have "py_strip s @ rev (takeWhile py_isspace (rev ?u))
      = rev (takeWhile py_isspace (rev ?u) @ dropWhile py_isspace (rev ?u))"
    unfolding py_strip_def rev_append ..
  also have "\<dots> = rev (rev ?u)" by (simp only: takeWhile_dropWhile_id)
  also have "\<dots> = ?u" by simp
  finally show ?thesis by simp
qed

lemma py_strip_decomp: "\<exists>a b. s = a @ py_strip s @ b"
proof -
  have "s = takeWhile py_isspace s @ dropWhile py_isspace s" by simp
  then have "s = takeWhile py_isspace s @ py_strip s @
      rev (takeWhile py_isspace (rev (dropWhile py_isspace s)))"
    using py_strip_prefix[of s] by simp
  then show ?thesis by blast
qed

lemma nas_py_strip: "no_adjacent_spaces s \<Longrightarrow> no_adjacent_spaces (py_strip s)"
proof -
  assume a: "no_adjacent_spaces s"
  obtain x y where "s = x @ py_strip s @ y" using py_strip_decomp by blast
  with a have "no_adjacent_spaces (x @ py_strip s @ y)" by simp
  then show ?thesis using nas_append by blast
qed

lemma py_strip_ends:
  "py_strip s \<noteq> [] \<Longrightarrow> \<not> py_isspace (hd (py_strip s)) \<and> \<not> py_isspace (last (py_strip s))"
proof -
  assume ne: "py_strip s \<noteq> []"
  let ?u = "dropWhile py_isspace s"
  let ?w = "dropWhile py_isspace (rev ?u)"
  have w: "?w \<noteq> []" using ne by (simp add: py_strip_def)
  have l: "\<not> py_isspace (hd ?w)" using w by (rule hd_dropWhile)
  have last_eq: "last (py_strip s) = hd ?w" using w by (simp add: py_strip_def last_rev)
  have "?u = [] \<Longrightarrow> ?w = []" by (simp del: dropWhile_eq_Nil_conv)
  with w have u: "?u \<noteq> []" by blast
  have hu: "\<not> py_isspace (hd ?u)" using u by (rule hd_dropWhile)
  have "hd ?u = hd (py_strip s @ rev (takeWhile py_isspace (rev ?u)))"
    using py_strip_prefix[of s] by simp
  also have "\<dots> = hd (py_strip s)" using ne by simp
  finally show ?thesis using hu l last_eq by simp
qed

lemma py_strip_id:
  "t = [] \<or> (\<not> py_isspace (hd t) \<and> \<not> py_isspace (last t)) \<Longrightarrow> py_strip t = t"
proof (cases t)
  case Nil
  then show ?thesis by (simp add: py_strip_def)
next
  case (Cons x xs)
  assume "t = [] \<or> (\<not> py_isspace (hd t) \<and> \<not> py_isspace (last t))"
  with Cons have h: "\<not> py_isspace (hd t)" "\<not> py_isspace (last t)" by simp_all
  have 1: "dropWhile py_isspace t = t" using h(1) Cons by simp
  have ne: "rev t \<noteq> []" using Cons by simp
  then obtain a l where e: "rev t = a # l" by (cases "rev t") blast+
  have "hd (rev t) = last t" using Cons by (simp add: hd_rev)
  then have "a = last t" by (simp only: e list.sel)
  then have "\<not> py_isspace a" using h(2) by simp
  then have "dropWhile py_isspace (a # l) = a # l" by simp
  then have 2: "dropWhile py_isspace (rev t) = rev t" by (simp only: e)
  show ?thesis by (simp only: py_strip_def 1 2 rev_rev_ident)
qed

lemma set_keep_spaces: "set (keep_spaces d p t) \<subseteq> set t"
  by (induction t arbitrary: p) auto

lemma keep_spaces_head: "c \<noteq> 32 \<Longrightarrow> keep_spaces d p (c # cs) = c # keep_spaces d (Some c) cs"
  by simp

lemma keep_spaces_cases:
  "keep_spaces d p (c # cs) = keep_spaces d (Some c) cs \<or>
   keep_spaces d p (c # cs) = c # keep_spaces d (Some c) cs"
  by simp

lemma keep_spaces_last:
  "t \<noteq> [] \<Longrightarrow> last t \<noteq> 32 \<Longrightarrow>
   keep_spaces d p t \<noteq> [] \<and> last (keep_spaces d p t) = last t"
proof (induction t arbitrary: p)
  case Nil
  then show ?case by simp
next
  case (Cons c cs)
  show ?case
  proof (cases "cs = []")
    case True
    with Cons.prems show ?thesis by simp
  next
    case False
    then have "last cs \<noteq> 32" using Cons.prems by simp
    then have K: "keep_spaces d (Some c) cs \<noteq> [] \<and> last (keep_spaces d (Some c) cs) = last cs"
      using Cons.IH[of "Some c"] False by simp
    have lc: "last (c # cs) = last cs" using False by simp
    from keep_spaces_cases[of d p c cs] K show ?thesis
      unfolding lc by auto
  qed
qed

lemma isspace_32: "py_isspace 32"
  by (simp add: py_isspace_def)

lemma nas_keep_spaces:
  "no_adjacent_spaces t \<Longrightarrow> no_adjacent_spaces (keep_spaces d p t)"
proof (induction t arbitrary: p)
  case Nil
  then show ?case by simp
next
  case (Cons c cs)
  from Cons.prems have ncs: "no_adjacent_spaces cs" by (simp add: nas_Cons)
  note ih = Cons.IH[OF ncs]
  have "no_adjacent_spaces (c # keep_spaces d (Some c) cs)"
  proof (cases cs)
    case Nil
    then show ?thesis by simp
  next
    case (Cons y ys)
    show ?thesis
    proof (cases "py_isspace c")
      case True
      with Cons.prems \<open>cs = y # ys\<close> have "\<not> py_isspace y"
        using \<open>no_adjacent_spaces (c # cs)\<close> by (simp add: nas_Cons)
      then have "y \<noteq> 32" using isspace_32 by auto
      then have "keep_spaces d (Some c) cs = y # keep_spaces d (Some y) ys"
        using Cons by simp
      with ih[of "Some c"] \<open>\<not> py_isspace y\<close> show ?thesis by (simp add: nas_Cons)
    next
      case False
      with ih[of "Some c"] show ?thesis by (simp add: nas_Cons)
    qed
  qed
  with ih show ?case by simp
qed

lemma keep_spaces_idem:
  "no_adjacent_spaces t \<Longrightarrow> (t \<noteq> [] \<and> hd t = 32 \<longrightarrow> q = p) \<Longrightarrow>
   keep_spaces d q (keep_spaces d p t) = keep_spaces d p t"
proof (induction t arbitrary: p q)
  case Nil
  then show ?case by simp
next
  case (Cons c cs)
  from Cons.prems(1) have ncs: "no_adjacent_spaces cs" by (simp add: nas_Cons)
  show ?case
  proof (cases "c = 32")
    case False
    have "keep_spaces d (Some c) (keep_spaces d (Some c) cs) = keep_spaces d (Some c) cs"
      using Cons.IH[OF ncs, of "Some c" "Some c"] by simp
    with False show ?thesis by simp
  next
    case True
    with Cons.prems(2) have qp: "q = p" by simp
    have hd_cs: "cs = [] \<or> hd cs \<noteq> 32"
      using Cons.prems(1) True isspace_32 by (auto simp: nas_Cons)
    have same: "keep_spaces d (Some 32) (keep_spaces d (Some 32) cs) = keep_spaces d (Some 32) cs"
      using Cons.IH[OF ncs, of "Some 32" "Some 32"] by simp
    have other: "keep_spaces d p (keep_spaces d (Some 32) cs) = keep_spaces d (Some 32) cs"
      using Cons.IH[OF ncs, of p "Some 32"] hd_cs by auto
    show ?thesis
    proof (cases cs)
      case Nil
      with True qp show ?thesis by simp
    next
      case (Cons y ys)
      with hd_cs have y: "y \<noteq> 32" by simp
      then have X: "keep_spaces d (Some 32) cs = y # keep_spaces d (Some y) ys"
        using Cons by simp
      show ?thesis
        using True qp same other X Cons by (simp split: option.splits)
    qed
  qed
qed


lemma SpaceNormalizer_unfold:
  "SpaceNormalizer_normalize d s =
     keep_spaces d None
       (py_strip (re_sub_spaces (py_replace [160] [32] (py_replace [12288] [32] (py_strip s)))))"
  by (simp add: SpaceNormalizer_normalize_def Let_def loop_keep_spaces)

lemma py_replace_char_id: "a \<notin> set s \<Longrightarrow> py_replace [a] [b] s = s"
  by (induction s) auto

text \<open>The shape of every output of \<open>SpaceNormalizer.normalize\<close>.\<close>

lemma SpaceNormalizer_output:
  fixes d s
  defines "z \<equiv> SpaceNormalizer_normalize d s"
  shows "12288 \<notin> set z" and "160 \<notin> set z" and "no_adjacent_spaces z"
    and "z = [] \<or> (\<not> py_isspace (hd z) \<and> \<not> py_isspace (last z))"
    and "keep_spaces d None z = z"
proof -
  define y3 where "y3 = py_replace [160] [32] (py_replace [12288] [32] (py_strip s))"
  define y5 where "y5 = py_strip (re_sub_spaces y3)"
  have z: "z = keep_spaces d None y5"
    by (simp add: z_def SpaceNormalizer_unfold y5_def y3_def)
  have y3: "12288 \<notin> set y3" "160 \<notin> set y3"
    by (auto simp: y3_def py_replace_char)
  have "set y5 \<subseteq> insert 32 (set y3)"
    unfolding y5_def using set_py_strip set_re_sub_spaces by blast
  moreover have "set z \<subseteq> set y5" unfolding z by (rule set_keep_spaces)
  ultimately have sz: "set z \<subseteq> insert 32 (set y3)" by blast
  show "12288 \<notin> set z" using sz y3(1) by auto
  show "160 \<notin> set z" using sz y3(2) by auto
  have n5: "no_adjacent_spaces y5"
    unfolding y5_def by (intro nas_py_strip nas_re_sub_spaces)
  show "no_adjacent_spaces z" unfolding z using n5 by (rule nas_keep_spaces)
  show "keep_spaces d None z = z"
    unfolding z using n5 by (rule keep_spaces_idem) simp
  show "z = [] \<or> (\<not> py_isspace (hd z) \<and> \<not> py_isspace (last z))"
  proof (cases "y5 = []")
    case True
    then show ?thesis by (simp add: z)
  next
    case False
    then have e: "\<not> py_isspace (hd y5)" "\<not> py_isspace (last y5)"
      using py_strip_ends[of "re_sub_spaces y3"] by (simp_all add: y5_def)
    then have ne32: "hd y5 \<noteq> 32" "last y5 \<noteq> 32" using isspace_32 by auto
    obtain c cs where c: "y5 = c # cs" using False by (cases y5) auto
    have "keep_spaces d None y5 = c # keep_spaces d (Some c) cs"
      using ne32(1) c by simp
    then have "hd z = hd y5" using c by (simp add: z)
    moreover have "last z = last y5"
      unfolding z using keep_spaces_last[OF False ne32(2)] by simp
    ultimately show ?thesis using e by simp
  qed
qed

text \<open>The examples of the specification.\<close>

lemma SpaceNormalizer_examples:
  "SpaceNormalizer_normalize sample_deps (ustr ''hello   world'') = ustr ''hello world''"
  "SpaceNormalizer_normalize sample_deps [20320, 22909, 32, 19990, 30028]
     = [20320, 22909, 19990, 30028]"
  by (simp_all add: SpaceNormalizer_unfold py_strip_def py_isspace_def ustr_def sample_deps_def)

lemma NoPrintNormalizer_example: "NoPrintNormalizer_normalize [97, 0, 98, 31, 99] = [97, 98, 99]"
  by (simp add: NoPrintNormalizer_normalize_def)

text \<open>
  C6. \<open>SpaceNormalizer.normalize\<close> and \<open>NoPrintNormalizer.normalize\<close> are idempotent on every
  string, whatever \<open>is_ascii_char\<close> answers.
\<close>

theorem normalizers_idempotent:
  "SpaceNormalizer_normalize d (SpaceNormalizer_normalize d x) = SpaceNormalizer_normalize d x \<and>
   NoPrintNormalizer_normalize (NoPrintNormalizer_normalize x) = NoPrintNormalizer_normalize x"
proof
  let ?z = "SpaceNormalizer_normalize d x"
  note out = SpaceNormalizer_output[of d x]
  have 1: "py_strip ?z = ?z" using out(4) by (rule py_strip_id)
  have 2: "py_replace [12288] [32] ?z = ?z" using out(1) by (rule py_replace_char_id)
  have 3: "py_replace [160] [32] ?z = ?z" using out(2) by (rule py_replace_char_id)
  have 4: "re_sub_spaces ?z = ?z" using out(3) by (rule re_sub_spaces_id)
  have "SpaceNormalizer_normalize d ?z = keep_spaces d None ?z"
    by (simp only: SpaceNormalizer_unfold[of d ?z] 1 2 3 4)
  then show "SpaceNormalizer_normalize d ?z = ?z" using out(5) by simp
next
  show "NoPrintNormalizer_normalize (NoPrintNormalizer_normalize x) = NoPrintNormalizer_normalize x"
    by (simp add: NoPrintNormalizer_normalize_def)
qed

subsection \<open>One scan of the pair-punctuation normalization\<close>

text \<open>
  C5, as the claim states it, fails. In \<open>(a)(b\<close> the second opening parenthesis has no
  closing parenthesis after it, yet the scan deletes nothing, because only the first opening
  parenthesis is examined; and the doubled parentheses of \<open>((a))\<close> are deleted, not collapsed
  to one.
\<close>

theorem normalize_pair_punct_counterexample:
  "claimed_unmatched_open 0 40 41 (ustr ''(a)(b'') = Some 3 \<and>
   normalize_pair_punct (ustr ''(a)(b'') (ustr ''('') (ustr '')'') = ustr ''(a)(b'' \<and>
   normalize_pair_punct (ustr ''((a))'') (ustr ''('') (ustr '')'') = ustr ''a''"
  by (simp add: normalize_pair_punct_def replace_repeats_def remove_left_def remove_right_def
      py_find_def Let_def ustr_def)

lemma py_replace_pair: "py_replace [c, c] [] s = drop_pairs c s"
  by (induction c s rule: drop_pairs.induct) auto

lemma drop_pairs_head: "y \<noteq> c \<Longrightarrow> drop_pairs c (y # zs) = y # drop_pairs c zs"
  by (cases zs) simp_all

lemma drop_pairs_not_doubled: "\<not> doubled c (drop_pairs c s)"
proof (induction c s rule: drop_pairs.induct)
  case (1 c x y zs)
  show ?case
  proof (cases "x = c \<and> y = c")
    case True
    with 1 show ?thesis by simp
  next
    case False
    note nd = 1(2)[OF False]
    show ?thesis
    proof (cases "y = c")
      case True
      with False have "x \<noteq> c" by simp
      with nd False show ?thesis
        by (cases "drop_pairs c (y # zs)") simp_all
    next
      case False
      with nd show ?thesis by (simp add: drop_pairs_head)
    qed
  qed
qed simp_all

lemma replace_triple_id: "\<not> doubled c t \<Longrightarrow> py_replace [c, c, c] [c] t = t"
proof (induction t)
  case Nil
  then show ?case by simp
next
  case (Cons a t)
  from Cons.prems have nd: "\<not> doubled c t" by (cases t) auto
  from Cons.prems have np: "\<not> prefix [c, c, c] (a # t)" by (cases t) auto
  from Cons.IH[OF nd] np show ?case by auto
qed

lemma drop_pairs_id: "\<not> doubled c t \<Longrightarrow> drop_pairs c t = t"
  by (induction c t rule: drop_pairs.induct) auto

lemma replace_repeats_single:
  "replace_repeats s [l] [r] = drop_pairs r (drop_pairs l s)"
  by (simp add: replace_repeats_def py_replace_pair replace_triple_id drop_pairs_not_doubled)

lemma find_at_single:
  "find_at k [c] t = (if c \<in> set t then int (k + length (takeWhile (\<lambda>x. x \<noteq> c) t)) else - 1)"
  by (induction t arbitrary: k) auto

lemma first_index_less: "c \<in> set s \<Longrightarrow> length (takeWhile (\<lambda>x. x \<noteq> c) s) < length s"
  by (induction s) auto

lemma remove_left_single: "remove_left s [l] [r] = drop_first_open l r s"
proof (cases "l \<in> set s")
  case False
  then have e: "dropWhile (\<lambda>x. x \<noteq> l) s = []" by auto
  have "drop_first_open l r s = s" unfolding drop_first_open_def e by simp
  moreover have "remove_left s [l] [r] = s"
    using False by (simp add: remove_left_def py_find_def find_at_single)
  ultimately show ?thesis by simp
next
  case True
  let ?i = "length (takeWhile (\<lambda>x. x \<noteq> l) s)"
  have lt: "?i < length s"
    using True by (rule first_index_less)
  have dw: "dropWhile (\<lambda>x. x \<noteq> l) s = s ! ?i # drop (Suc ?i) s"
    using lt by (simp add: dropWhile_eq_drop Cons_nth_drop_Suc)
  have tw: "takeWhile (\<lambda>x. x \<noteq> l) s = take ?i s"
    by (rule takeWhile_eq_take)
  have idx: "py_find s [l] 0 (length s) = int ?i"
    using True by (simp add: py_find_def find_at_single)
  have hp: "py_find s [r] (Suc ?i) (length s) = - 1 \<longleftrightarrow> r \<notin> set (drop (Suc ?i) s)"
    using lt by (simp add: py_find_def find_at_single)
  have "remove_left s [l] [r] =
      (if r \<in> set (drop (Suc ?i) s) then s else take ?i s @ drop (Suc ?i) s)"
    using hp by (simp add: remove_left_def idx Let_def nat_add_distrib)
  also have "\<dots> = drop_first_open l r s"
    by (simp add: drop_first_open_def dw tw[symmetric])
  finally show ?thesis .
qed

lemma remove_right_single: "remove_right s [l] [r] = drop_first_close l r s"
proof (cases "r \<in> set s")
  case False
  then have e: "dropWhile (\<lambda>x. x \<noteq> r) s = []" by auto
  have "drop_first_close l r s = s" unfolding drop_first_close_def e by simp
  moreover have "remove_right s [l] [r] = s"
    using False by (simp add: remove_right_def py_find_def find_at_single)
  ultimately show ?thesis by simp
next
  case True
  let ?i = "length (takeWhile (\<lambda>x. x \<noteq> r) s)"
  have lt: "?i < length s"
    using True by (rule first_index_less)
  have dw: "dropWhile (\<lambda>x. x \<noteq> r) s = s ! ?i # drop (Suc ?i) s"
    using lt by (simp add: dropWhile_eq_drop Cons_nth_drop_Suc)
  have tw: "takeWhile (\<lambda>x. x \<noteq> r) s = take ?i s"
    by (rule takeWhile_eq_take)
  have idx: "py_find s [r] 0 (length s) = int ?i"
    using True by (simp add: py_find_def find_at_single)
  have hp: "py_find s [l] 0 ?i = - 1 \<longleftrightarrow> l \<notin> set (take ?i s)"
    using lt by (simp add: py_find_def find_at_single min_def)
  have "remove_right s [l] [r] =
      (if l \<in> set (take ?i s) then s else take ?i s @ drop (Suc ?i) s)"
    using hp by (simp add: remove_right_def idx Let_def nat_add_distrib)
  also have "\<dots> = drop_first_close l r s"
    by (simp add: drop_first_close_def dw tw[symmetric])
  finally show ?thesis .
qed

lemma normalize_pair_punct_single:
  "normalize_pair_punct s [l] [r] =
     drop_first_close l r (drop_first_open l r (drop_pairs r (drop_pairs l s)))"
  by (simp add: normalize_pair_punct_def replace_repeats_single remove_left_single
      remove_right_single)

text \<open>
  C5 (amended). For every configured bracket pair, one scan deletes adjacent doubled opening
  brackets two at a time from left to right (a doubled bracket disappears, a tripled one is
  left single), then doubled closing brackets likewise; the two replacements of tripled
  brackets change nothing after that. It then deletes the first opening bracket of the string
  if no closing bracket follows it, and then the first closing bracket of the string if no
  opening bracket precedes it: at most one bracket of each kind, and none when the first one
  is matched.
\<close>

theorem normalize_pair_punct_scan:
  "(L, R) \<in> set punct_pairs \<Longrightarrow>
   normalize_pair_punct s L R =
     drop_first_close (hd L) (hd R) (drop_first_open (hd L) (hd R)
       (drop_pairs (hd R) (drop_pairs (hd L) s)))"
  by (auto simp: punct_pairs_def normalize_pair_punct_single)

theorem normalize_pair_punct_scan_witness:
  "normalize_pair_punct (ustr ''(((a)'') (ustr ''('') (ustr '')'') = ustr ''(a)'' \<and>
   normalize_pair_punct (ustr ''(a(b'') (ustr ''('') (ustr '')'') = ustr ''a(b'' \<and>
   normalize_pair_punct (ustr ''a)b)'') (ustr ''('') (ustr '')'') = ustr ''ab)''"
  using normalize_pair_punct_scan [of "ustr ''(''" "ustr '')''" "ustr ''(((a)''"]
    normalize_pair_punct_scan [of "ustr ''(''" "ustr '')''" "ustr ''(a(b''"]
    normalize_pair_punct_scan [of "ustr ''(''" "ustr '')''" "ustr ''a)b)''"]
  by (simp add: punct_pairs_def ustr_def drop_first_open_def drop_first_close_def)

subsection \<open>Pair-aware normalizers on a line without a tab\<close>

lemma split_char_from_no_sep: "sep \<notin> set s \<Longrightarrow> split_char_from sep cur s = [cur @ s]"
  by (induction s arbitrary: cur) auto

lemma PairPunctNormalizer_no_tab:
  "9 \<notin> set s \<Longrightarrow> PairPunctNormalizer_normalize s = Inl IndexError"
  by (simp add: PairPunctNormalizer_normalize_def py_split_char_def split_char_from_no_sep
      py_index_def)

text \<open>\<open>Hant2Hans.normalize\<close> tests \<open>len(pair) != 2\<close> and returns its input.\<close>

lemma Hant2Hans_malformed:
  "length (py_split_char 9 s) \<noteq> 2 \<Longrightarrow> Hant2Hans_normalize d norm_src norm_tgt s = s"
  by (simp add: Hant2Hans_normalize_def)

lemma Hant2Hans_no_tab: "9 \<notin> set s \<Longrightarrow> Hant2Hans_normalize d norm_src norm_tgt s = s"
  by (simp add: Hant2Hans_normalize_def py_split_char_def split_char_from_no_sep)

text \<open>
  C2 does not hold of the code. \<open>PairPunctNormalizer.normalize\<close> reads \<open>pair[1]\<close> without
  testing the number of fields: a line with no tab raises \<open>IndexError\<close>, and of a line with
  three fields the third is dropped.
\<close>

theorem PairPunctNormalizer_malformed_line:
  "PairPunctNormalizer_normalize (ustr ''hello'') = Inl IndexError \<and>
   PairPunctNormalizer_normalize (ustr ''a'' @ [9] @ ustr ''b'' @ [9] @ ustr ''c'')
     = Inr (ustr ''a'' @ [9] @ ustr ''b'')"
  by (simp add: PairPunctNormalizer_normalize_def py_split_char_def py_index_def ustr_def
      normalize_pair_def punct_pairs_def normalize_pair_punct_def replace_repeats_def
      remove_left_def remove_right_def py_find_def Let_def)

end
